theory Spec2Isabelle
  imports Main "HOL-Library.AList"
begin

section \<open>Python values and dictionaries\<close>

text \<open>
  The orchestrator moves JSON-like payloads around (\<^verbatim>\<open>Dict[str, Any]\<close>). A value is one of
  Python's JSON types; a float is kept as a decimal mantissa and exponent
  (\<^verbatim>\<open>0.8\<close> is \<open>PFloat 8 (-1)\<close>), a dict as an association list read with \<open>map_of\<close>.
\<close>

datatype pyval =
    PNone
  | PBool bool
  | PInt int
  | PFloat int int
  | PStr string
  | PList "pyval list"
  | PDict "(string \<times> pyval) list"

type_synonym pydict = "(string \<times> pyval) list"

text \<open>\<^verbatim>\<open>d.get(k, default)\<close>\<close>

definition dict_get :: "pydict \<Rightarrow> string \<Rightarrow> pyval \<Rightarrow> pyval" where
  "dict_get d k dflt = (case map_of d k of None \<Rightarrow> dflt | Some v \<Rightarrow> v)"

text \<open>An \<^verbatim>\<open>Optional[Dict]\<close> field placed inside a payload.\<close>

definition opt_dict :: "pydict option \<Rightarrow> pyval" where
  "opt_dict od = (case od of None \<Rightarrow> PNone | Some d \<Rightarrow> PDict d)"

text \<open>\<^verbatim>\<open>(x or {})\<close> for an optional dict: \<^verbatim>\<open>None\<close> and the empty dict are both falsy.\<close>

definition or_empty :: "pydict option \<Rightarrow> pydict" where
  "or_empty od = (case od of None \<Rightarrow> [] | Some d \<Rightarrow> d)"

text \<open>\<^verbatim>\<open>timedelta.total_seconds()\<close> of a difference given in microseconds.\<close>

definition total_seconds :: "int \<Rightarrow> pyval" where
  "total_seconds micros = PFloat micros (- 6)"

section \<open>Data model (orchestrator\_agent.py)\<close>

text \<open>
  \<^verbatim>\<open>FailurePayload\<close>: the webhook checks only that the required keys are present and that
  \<^verbatim>\<open>error\<close> is a dict, so the other fields hold whatever JSON value the sender put there.
\<close>

record FailurePayload =
  test_title :: pyval
  fp_status :: pyval
  error :: pydict
  retries :: pyval
  trace_id :: pyval
  video_url :: pyval
  trace_url :: pyval
  timestamp :: pyval

text \<open>\<^verbatim>\<open>WorkflowState\<close>: \<open>status\<close> is the stage, kept as the string the code stores.
  Timestamps are microseconds.\<close>

record WorkflowState =
  workflow_id :: string
  incident_id :: string
  failure_payload :: FailurePayload
  status :: string
  created_at :: int
  updated_at :: int
  analysis_result :: "pydict option"
  remediation_action :: "pydict option"
  approval_response :: "pydict option"
  execution_result :: "pydict option"
  topology_data :: "pydict option"
  error_message :: "pyval option"

text \<open>The \<^verbatim>\<open>log_entry\<close> that \<^verbatim>\<open>_log_mcp_event\<close> writes to the audit log.\<close>

record mcp_event =
  ev_timestamp :: string
  ev_agent_id :: string
  ev_type :: string
  ev_data :: pydict
  ev_source :: string
  ev_severity :: string

text \<open>The A2A skill names of \<^verbatim>\<open>self.services\<close> (set once in \<^verbatim>\<open>__init__\<close>).\<close>

record services =
  rca_skill :: string
  approval_skill :: string
  propose_skill :: string
  execute_skill :: string

text \<open>
  The orchestrator's mutable state. \<open>active_workflows\<close> is the dict of workflow records in
  insertion order; \<open>a2a_clients\<close> lists the services that have an A2A client; \<open>server\<close>
  says whether \<^verbatim>\<open>self.server\<close> is set; \<open>mcp_log\<close> is what \<^verbatim>\<open>_log_mcp_event\<close> has
  emitted; \<open>cleanup_tasks\<close> are the delayed \<^verbatim>\<open>_cleanup_completed_workflow\<close> tasks created
  so far; \<open>clock_reads\<close> and \<open>uuid_reads\<close> count the calls of \<^verbatim>\<open>datetime.now()\<close> and
  \<^verbatim>\<open>uuid.uuid4()\<close>.
\<close>

record orchestrator =
  agent_id :: string
  server :: bool
  active_workflows :: "(string \<times> WorkflowState) list"
  rca_agents :: "string list"
  remediation_agents :: "string list"
  approval_agents :: "string list"
  audit_agents :: "string list"
  a2a_clients :: "string list"
  services :: services
  mcp_log :: "mcp_event list"
  cleanup_tasks :: "string list"
  last_heartbeat :: "int option"
  clock_reads :: nat
  uuid_reads :: nat

text \<open>
  What a remote skill invocation does within its timeout: it returns the response dict, or
  it raises (transport or protocol error, \<^verbatim>\<open>asyncio.TimeoutError\<close>, a client without
  \<^verbatim>\<open>invoke\<close>/\<^verbatim>\<open>call\<close>); the string is \<^verbatim>\<open>str(e)\<close>.
\<close>

datatype call_outcome = Returned pydict | Raised string

text \<open>
  Everything outside the process: the wall clock (\<open>clock e n\<close> is the \<open>n\<close>-th reading of
  \<^verbatim>\<open>datetime.now()\<close>), the UUID generator, the date formatters, \<^verbatim>\<open>str()\<close> on a value,
  the collaborators (\<open>a2a_remote e n service skill payload timeout\<close>, where \<open>n\<close> is the
  number of clock readings so far, so that equal requests may be answered differently), and
  whether stopping the webhook server raises.
\<close>

record env =
  clock :: "nat \<Rightarrow> int"
  uuid4 :: "nat \<Rightarrow> string"
  isoformat :: "int \<Rightarrow> string"
  strftime :: "int \<Rightarrow> string"
  py_str :: "pyval \<Rightarrow> string"
  a2a_remote :: "nat \<Rightarrow> string \<Rightarrow> string \<Rightarrow> pydict \<Rightarrow> nat \<Rightarrow> call_outcome"
  server_stop_raises :: bool

text \<open>\<^verbatim>\<open>self.workflow_timeout = timedelta(minutes=30)\<close>, in microseconds.\<close>

definition workflow_timeout :: int where
  "workflow_timeout = 30 * 60 * 1000000"

section \<open>Primitive effects\<close>

definition tick :: "orchestrator \<Rightarrow> orchestrator" where
  "tick s = s\<lparr>clock_reads := Suc (clock_reads s)\<rparr>"

text \<open>\<^verbatim>\<open>datetime.now()\<close>\<close>

definition datetime_now :: "env \<Rightarrow> orchestrator \<Rightarrow> int \<times> orchestrator" where
  "datetime_now e s = (clock e (clock_reads s), tick s)"


text \<open>
  Assignments to the attributes of a workflow object that sits in \<open>active_workflows\<close>
  under key \<open>wid\<close>: the record is changed in place; an object that is no longer in the
  dict leaves the dict as it is.
\<close>

definition mutate :: "string \<Rightarrow> (WorkflowState \<Rightarrow> WorkflowState) \<Rightarrow> orchestrator \<Rightarrow> orchestrator" where
  "mutate wid f s = s\<lparr>active_workflows := AList.map_entry wid f (active_workflows s)\<rparr>"

text \<open>\<^verbatim>\<open>_log_mcp_event\<close> (lines 947-966): one clock reading, one log entry.\<close>

definition log_mcp_event :: "env \<Rightarrow> string \<Rightarrow> pydict \<Rightarrow> orchestrator \<Rightarrow> orchestrator" where
  "log_mcp_event e event_type event_data s =
     (let (t, s1) = datetime_now e s
      in s1\<lparr>mcp_log := mcp_log s1 @
           [\<lparr>ev_timestamp = isoformat e t, ev_agent_id = agent_id s1, ev_type = event_type,
             ev_data = event_data, ev_source = ''orchestrator-agent'',
             ev_severity = ''INFO''\<rparr>]\<rparr>)"

text \<open>\<^verbatim>\<open>asyncio.create_task(self._cleanup_completed_workflow(workflow_id))\<close>\<close>

definition schedule_cleanup :: "string \<Rightarrow> orchestrator \<Rightarrow> orchestrator" where
  "schedule_cleanup wid s = s\<lparr>cleanup_tasks := cleanup_tasks s @ [wid]\<rparr>"


section \<open>Remote call coordinator\<close>

text \<open>
  \<^verbatim>\<open>_a2a_call\<close> (lines 652-689). With a client for the service the skill is invoked under the
  timeout; a raise there is logged as \<^verbatim>\<open>a2a_call_failed\<close> and re-raised as a
  \<^verbatim>\<open>RuntimeError\<close>. Without a client a \<^verbatim>\<open>RuntimeError\<close> is raised at once. \<open>Inl\<close> is the
  message of the raised error.
\<close>

definition a2a_call ::
  "env \<Rightarrow> string \<Rightarrow> string \<Rightarrow> pydict \<Rightarrow> nat \<Rightarrow> string \<Rightarrow> orchestrator
     \<Rightarrow> (string + pydict) \<times> orchestrator" where
  "a2a_call e service skill payload timeout correlation_id s =
     (if service \<in> set (a2a_clients s) then
        (case a2a_remote e (clock_reads s) service skill payload timeout of
           Returned r \<Rightarrow> (Inr r, s)
         | Raised err \<Rightarrow>
             (Inl (''A2A call failed for '' @ service @ ''.'' @ skill @ '': '' @ err),
              log_mcp_event e ''a2a_call_failed''
                [(''service'', PStr service), (''skill'', PStr skill), (''error'', PStr err),
                 (''correlation_id'', PStr correlation_id)] s))
      else
        (Inl (''No A2A client available for service '' @ [CHR 0x27] @ service @ [CHR 0x27]), s))"

section \<open>Terminal transitions\<close>

text \<open>
  \<^verbatim>\<open>_fail_workflow\<close> (lines 1573-1599). There is no test of the current stage: any record
  found under the id is set to \<^verbatim>\<open>failed\<close>. The message is whatever value the caller passes
  (a string everywhere except for a status update, which forwards a payload field).
\<close>

definition fail_workflow :: "env \<Rightarrow> string \<Rightarrow> pyval \<Rightarrow> orchestrator \<Rightarrow> orchestrator" where
  "fail_workflow e wid msg s =
     (case map_of (active_workflows s) wid of
        None \<Rightarrow> s
      | Some w \<Rightarrow>
          let (t, s1) = datetime_now e s;
              s2 = mutate wid (\<lambda>w. w\<lparr>status := ''failed'', updated_at := t,
                                        error_message := Some msg\<rparr>) s1;
              s3 = log_mcp_event e ''workflow_failed''
                     [(''workflow_id'', PStr wid), (''incident_id'', PStr (incident_id w)),
                      (''error_message'', msg),
                      (''duration_seconds'', total_seconds (t - created_at w))] s2
          in schedule_cleanup wid s3)"

text \<open>
  \<^verbatim>\<open>_complete_workflow\<close> (lines 1538-1565). The ADK call \<^verbatim>\<open>self.complete_workflow\<close> only
  logs and swallows its own errors; it does not touch the orchestrator's state.
\<close>

definition complete_workflow :: "env \<Rightarrow> string \<Rightarrow> pydict \<Rightarrow> orchestrator \<Rightarrow> orchestrator" where
  "complete_workflow e wid result s =
     (case map_of (active_workflows s) wid of
        None \<Rightarrow> s
      | Some w \<Rightarrow>
          let (t, s1) = datetime_now e s;
              s2 = mutate wid (\<lambda>w. w\<lparr>status := ''completed'', updated_at := t,
                                        execution_result := Some result\<rparr>) s1;
              s3 = log_mcp_event e ''workflow_completed''
                     [(''workflow_id'', PStr wid), (''incident_id'', PStr (incident_id w)),
                      (''duration_seconds'', total_seconds (t - created_at w)),
                      (''result'', PDict result)] s2
          in schedule_cleanup wid s3)"

section \<open>Stage handlers and triggers\<close>

text \<open>
  The handlers take the workflow id and look the record up; the triggers take the workflow
  object \<open>ws\<close> that the caller holds (the record it has just read or written) and assign to
  its attributes. The bodies sit in \<^verbatim>\<open>try/except Exception\<close> blocks; with dict payloads no
  statement of a body raises except the remote call, whose \<^verbatim>\<open>except\<close> branch is the mock
  fallback below.
\<close>

text \<open>\<^verbatim>\<open>_handle_execution_complete\<close> (lines 1219-1242)\<close>

definition handle_execution_complete ::
  "env \<Rightarrow> string \<Rightarrow> pydict \<Rightarrow> orchestrator \<Rightarrow> orchestrator" where
  "handle_execution_complete e wid execution_res s =
     (case map_of (active_workflows s) wid of
        None \<Rightarrow> s
      | Some w \<Rightarrow>
          let (t, s1) = datetime_now e s;
              s2 = mutate wid (\<lambda>w. w\<lparr>execution_result := Some execution_res,
                                        updated_at := t\<rparr>) s1;
              s3 = log_mcp_event e ''execution_complete''
                     [(''workflow_id'', PStr wid),
                      (''success'', dict_get execution_res ''success'' PNone),
                      (''duration'', dict_get execution_res ''duration_seconds'' PNone)] s2
          in complete_workflow e wid execution_res s3)"

definition mock_execution :: pydict where
  "mock_execution =
     [(''success'', PBool True), (''duration_seconds'', PInt 30),
      (''actions_taken'', PList [PStr ''A2A communication failed, mock service restart'']),
      (''verification_status'', PStr ''passed'')]"

text \<open>
  \<^verbatim>\<open>_trigger_remediation_execution\<close> (lines 1480-1536), in two parts: the
  \<^verbatim>\<open>try/except\<close> block around the remote call (lines 1505-1532), and the function itself.
\<close>

definition execute_payload :: "WorkflowState \<Rightarrow> pydict" where
  "execute_payload ws =
     [(''workflow_id'', PStr (workflow_id ws)),
      (''incident_id'', PStr (incident_id ws)),
      (''remediation_action'', opt_dict (remediation_action ws)),
      (''approval_response'', opt_dict (approval_response ws))]"

definition call_remediation_execution ::
  "env \<Rightarrow> WorkflowState \<Rightarrow> orchestrator \<Rightarrow> orchestrator" where
  "call_remediation_execution e ws s =
     (let correlation_id = ''wf-'' @ workflow_id ws;
          (res, s1) = a2a_call e ''remediation'' (execute_skill (services s)) (execute_payload ws)
                        90 correlation_id s
      in case res of
           Inr execution_res \<Rightarrow> handle_execution_complete e (workflow_id ws) execution_res s1
         | Inl err \<Rightarrow>
             handle_execution_complete e (workflow_id ws) mock_execution
               (log_mcp_event e ''remediation_a2a_failed_mock_fallback''
                  [(''workflow_id'', PStr (workflow_id ws)), (''stage'', PStr ''execute''),
                   (''error'', PStr err)] s1))"

definition trigger_remediation_execution ::
  "env \<Rightarrow> WorkflowState \<Rightarrow> orchestrator \<Rightarrow> orchestrator" where
  "trigger_remediation_execution e ws s =
     (if remediation_agents s = [] then
        fail_workflow e (workflow_id ws) (PStr ''No remediation agents available'') s
      else
        let (t, s1) = datetime_now e s;
            s2 = mutate (workflow_id ws) (\<lambda>w. w\<lparr>status := ''executing'', updated_at := t\<rparr>) s1;
            s3 = log_mcp_event e ''remediation_execution_triggered''
                   [(''workflow_id'', PStr (workflow_id ws)),
                    (''incident_id'', PStr (incident_id ws))] s2
        in call_remediation_execution e ws s3)"

text \<open>\<^verbatim>\<open>_handle_approval_received\<close> (lines 1188-1217)\<close>

definition handle_approval_received ::
  "env \<Rightarrow> string \<Rightarrow> pydict \<Rightarrow> orchestrator \<Rightarrow> orchestrator" where
  "handle_approval_received e wid approval_res s =
     (case map_of (active_workflows s) wid of
        None \<Rightarrow> s
      | Some w \<Rightarrow>
          let (t, s1) = datetime_now e s;
              ws = w\<lparr>approval_response := Some approval_res, updated_at := t\<rparr>;
              s2 = mutate wid (\<lambda>_. ws) s1;
              s3 = log_mcp_event e ''approval_received''
                     [(''workflow_id'', PStr wid),
                      (''decision'', dict_get approval_res ''decision'' PNone),
                      (''user_id'', dict_get approval_res ''user_id'' PNone)] s2
          in if dict_get approval_res ''decision'' PNone = PStr ''approve''
             then trigger_remediation_execution e ws s3
             else complete_workflow e wid
                    [(''status'', PStr ''rejected''),
                     (''reason'', dict_get approval_res ''reason'' (PStr ''Rejected by approver''))]
                    s3)"

definition mock_approval :: pydict where
  "mock_approval =
     [(''decision'', PStr ''approve''), (''user_id'', PStr ''system''),
      (''reason'', PStr ''A2A communication failed, auto-approved for testing'')]"

text \<open>\<^verbatim>\<open>asdict(failure_payload)\<close>\<close>

definition asdict :: "FailurePayload \<Rightarrow> pydict" where
  "asdict fp =
     [(''test_title'', test_title fp), (''status'', fp_status fp), (''error'', PDict (error fp)),
      (''retries'', retries fp), (''trace_id'', trace_id fp), (''video_url'', video_url fp),
      (''trace_url'', trace_url fp), (''timestamp'', timestamp fp)]"

text \<open>
  \<^verbatim>\<open>_trigger_approval_request\<close> (lines 1430-1478): the \<^verbatim>\<open>try/except\<close> block around the
  remote call (lines 1456-1474), and the function itself.
\<close>

definition approval_request :: "WorkflowState \<Rightarrow> pydict" where
  "approval_request ws =
     [(''workflow_id'', PStr (workflow_id ws)),
      (''incident_id'', PStr (incident_id ws)),
      (''analysis_result'', opt_dict (analysis_result ws)),
      (''remediation_action'', opt_dict (remediation_action ws)),
      (''failure_payload'', PDict (asdict (failure_payload ws)))]"

definition call_approval_request ::
  "env \<Rightarrow> WorkflowState \<Rightarrow> orchestrator \<Rightarrow> orchestrator" where
  "call_approval_request e ws s =
     (let correlation_id = ''wf-'' @ workflow_id ws;
          (res, s1) = a2a_call e ''approval'' (approval_skill (services s)) (approval_request ws)
                        45 correlation_id s
      in case res of
           Inr approval_res \<Rightarrow> handle_approval_received e (workflow_id ws) approval_res s1
         | Inl err \<Rightarrow>
             handle_approval_received e (workflow_id ws) mock_approval
               (log_mcp_event e ''approval_a2a_failed_mock_fallback''
                  [(''workflow_id'', PStr (workflow_id ws)), (''error'', PStr err)] s1))"

definition trigger_approval_request ::
  "env \<Rightarrow> WorkflowState \<Rightarrow> orchestrator \<Rightarrow> orchestrator" where
  "trigger_approval_request e ws s =
     (if approval_agents s = [] then
        fail_workflow e (workflow_id ws) (PStr ''No approval agents available'') s
      else
        let (t, s1) = datetime_now e s;
            s2 = mutate (workflow_id ws)
                   (\<lambda>w. w\<lparr>status := ''awaiting_approval'', updated_at := t\<rparr>) s1;
            s3 = log_mcp_event e ''approval_request_triggered''
                   [(''workflow_id'', PStr (workflow_id ws)),
                    (''incident_id'', PStr (incident_id ws))] s2
        in call_approval_request e ws s3)"

text \<open>\<^verbatim>\<open>_handle_remediation_proposed\<close> (lines 1163-1186)\<close>

definition handle_remediation_proposed ::
  "env \<Rightarrow> string \<Rightarrow> pydict \<Rightarrow> orchestrator \<Rightarrow> orchestrator" where
  "handle_remediation_proposed e wid remediation s =
     (case map_of (active_workflows s) wid of
        None \<Rightarrow> s
      | Some w \<Rightarrow>
          let (t, s1) = datetime_now e s;
              ws = w\<lparr>remediation_action := Some remediation, updated_at := t\<rparr>;
              s2 = mutate wid (\<lambda>_. ws) s1;
              s3 = log_mcp_event e ''remediation_proposed''
                     [(''workflow_id'', PStr wid),
                      (''action_type'', dict_get remediation ''type'' PNone),
                      (''risk_level'', dict_get remediation ''risk_level'' PNone)] s2
          in trigger_approval_request e ws s3)"

text \<open>The mock proposal of lines 1418-1423; it reads the workflow's analysis result.\<close>

definition mock_remediation :: "WorkflowState \<Rightarrow> pydict" where
  "mock_remediation ws =
     [(''type'', PStr ''restart_service''),
      (''service'', dict_get (or_empty (analysis_result ws)) ''failing_service''
                      (PStr ''unknown-service'')),
      (''risk_level'', PStr ''medium''),
      (''description'', PStr ''A2A communication failed, using mock remediation proposal'')]"

text \<open>
  \<^verbatim>\<open>_trigger_remediation_proposal\<close> (lines 1372-1428): the \<^verbatim>\<open>try/except\<close> block around
  the remote call (lines 1397-1424), and the function itself.
\<close>

definition propose_payload :: "WorkflowState \<Rightarrow> pydict" where
  "propose_payload ws =
     [(''workflow_id'', PStr (workflow_id ws)),
      (''incident_id'', PStr (incident_id ws)),
      (''analysis_result'', opt_dict (analysis_result ws)),
      (''topology_data'', opt_dict (topology_data ws))]"

definition call_remediation_proposal ::
  "env \<Rightarrow> WorkflowState \<Rightarrow> orchestrator \<Rightarrow> orchestrator" where
  "call_remediation_proposal e ws s =
     (let correlation_id = ''wf-'' @ workflow_id ws;
          (res, s1) = a2a_call e ''remediation'' (propose_skill (services s)) (propose_payload ws)
                        60 correlation_id s
      in case res of
           Inr proposal \<Rightarrow> handle_remediation_proposed e (workflow_id ws) proposal s1
         | Inl err \<Rightarrow>
             handle_remediation_proposed e (workflow_id ws) (mock_remediation ws)
               (log_mcp_event e ''remediation_a2a_failed_mock_fallback''
                  [(''workflow_id'', PStr (workflow_id ws)), (''stage'', PStr ''propose''),
                   (''error'', PStr err)] s1))"

definition trigger_remediation_proposal ::
  "env \<Rightarrow> WorkflowState \<Rightarrow> orchestrator \<Rightarrow> orchestrator" where
  "trigger_remediation_proposal e ws s =
     (if remediation_agents s = [] then
        fail_workflow e (workflow_id ws) (PStr ''No remediation agents available'') s
      else
        let (t, s1) = datetime_now e s;
            s2 = mutate (workflow_id ws) (\<lambda>w. w\<lparr>status := ''proposing'', updated_at := t\<rparr>) s1;
            s3 = log_mcp_event e ''remediation_proposal_triggered''
                   [(''workflow_id'', PStr (workflow_id ws)),
                    (''incident_id'', PStr (incident_id ws))] s2
        in call_remediation_proposal e ws s3)"

text \<open>
  \<^verbatim>\<open>_handle_analysis_complete\<close> (lines 1138-1161). The classification is read for the log
  entry only; the next step is always the remediation proposal.
\<close>

definition handle_analysis_complete ::
  "env \<Rightarrow> string \<Rightarrow> pydict \<Rightarrow> orchestrator \<Rightarrow> orchestrator" where
  "handle_analysis_complete e wid analysis s =
     (case map_of (active_workflows s) wid of
        None \<Rightarrow> s
      | Some w \<Rightarrow>
          let (t, s1) = datetime_now e s;
              ws = w\<lparr>analysis_result := Some analysis, updated_at := t\<rparr>;
              s2 = mutate wid (\<lambda>_. ws) s1;
              s3 = log_mcp_event e ''analysis_complete''
                     [(''workflow_id'', PStr wid),
                      (''classification'', dict_get analysis ''classification'' PNone),
                      (''confidence_score'', dict_get analysis ''confidence_score'' PNone)] s2
          in trigger_remediation_proposal e ws s3)"

definition mock_analysis :: pydict where
  "mock_analysis =
     [(''classification'', PStr ''Backend Error''),
      (''failing_service'', PStr ''unknown-service''),
      (''summary'', PStr ''A2A communication failed, using mock analysis''),
      (''confidence_score'', PFloat 8 (- 1)),
      (''evidence_count'', PInt 1)]"

text \<open>
  \<^verbatim>\<open>_trigger_rca_analysis\<close> (lines 1314-1370): the \<^verbatim>\<open>try/except\<close> block around the remote
  call (lines 1346-1366), and the function itself.
\<close>

definition analysis_request :: "env \<Rightarrow> WorkflowState \<Rightarrow> pydict" where
  "analysis_request e ws =
     (let fp = failure_payload ws
      in [(''failure_payload'', PDict
            [(''test_title'', test_title fp),
             (''status'', fp_status fp),
             (''error_message'',
                dict_get (error fp) ''message'' (PStr (py_str e (PDict (error fp))))),
             (''error_stack'', dict_get (error fp) ''stack'' (PStr [])),
             (''error_type'', dict_get (error fp) ''type'' (PStr ''Error'')),
             (''retries'', retries fp),
             (''trace_id'', trace_id fp),
             (''timestamp'', timestamp fp)])])"

definition call_rca_analysis ::
  "env \<Rightarrow> WorkflowState \<Rightarrow> orchestrator \<Rightarrow> orchestrator" where
  "call_rca_analysis e ws s =
     (let correlation_id = ''wf-'' @ workflow_id ws;
          (res, s1) = a2a_call e ''rca'' (rca_skill (services s)) (analysis_request e ws)
                        45 correlation_id s
      in case res of
           Inr analysis \<Rightarrow> handle_analysis_complete e (workflow_id ws) analysis s1
         | Inl err \<Rightarrow>
             handle_analysis_complete e (workflow_id ws) mock_analysis
               (log_mcp_event e ''rca_a2a_failed_mock_fallback''
                  [(''workflow_id'', PStr (workflow_id ws)), (''error'', PStr err)] s1))"

definition trigger_rca_analysis ::
  "env \<Rightarrow> WorkflowState \<Rightarrow> orchestrator \<Rightarrow> orchestrator" where
  "trigger_rca_analysis e ws s =
     (if rca_agents s = [] then
        fail_workflow e (workflow_id ws) (PStr ''No RCA agents available'') s
      else
        let (t, s1) = datetime_now e s;
            s2 = mutate (workflow_id ws) (\<lambda>w. w\<lparr>status := ''analyzing'', updated_at := t\<rparr>) s1;
            s3 = log_mcp_event e ''rca_analysis_triggered''
                   [(''workflow_id'', PStr (workflow_id ws)),
                    (''incident_id'', PStr (incident_id ws)),
                    (''trace_id'', trace_id (failure_payload ws))] s2
        in call_rca_analysis e ws s3)"

section \<open>Ingress\<close>





datatype http_body = Text string | Json pydict

record http_response =
  status_code :: nat
  body :: http_body



section \<open>Status updates from collaborators (orchestrator\_a2a\_service.py)\<close>





section \<open>Supervisor, health check and shutdown\<close>

text \<open>
  One pass of the loop body of \<^verbatim>\<open>_monitor_workflows\<close> (lines 1616-1638): the clock is read
  once, then every entry of a snapshot of the dict is examined. The loop repeats the pass
  after a 30 s sleep for as long as \<^verbatim>\<open>self.running\<close> holds.
\<close>

definition monitor_workflows_pass :: "env \<Rightarrow> orchestrator \<Rightarrow> orchestrator" where
  "monitor_workflows_pass e s =
     (let (current_time, s1) = datetime_now e s;
          s2 = fold (\<lambda>(wid, ws) st.
                       if current_time - updated_at ws > workflow_timeout
                       then fail_workflow e wid (PStr ''Workflow timeout'') st else st)
                    (active_workflows s1) s1
      in s2\<lparr>last_heartbeat := Some current_time\<rparr>)"

text \<open>
  The list comprehension of \<^verbatim>\<open>health_check\<close> (lines 1002-1005): \<^verbatim>\<open>datetime.now()\<close> is
  evaluated once for each workflow.
\<close>

fun stuck_workflows ::
  "env \<Rightarrow> WorkflowState list \<Rightarrow> orchestrator \<Rightarrow> WorkflowState list \<times> orchestrator" where
  "stuck_workflows e [] s = ([], s)"
| "stuck_workflows e (w # ws) s =
     (let (t, s1) = datetime_now e s;
          (rest, s2) = stuck_workflows e ws s1
      in (if t - updated_at w > workflow_timeout then w # rest else rest, s2))"

text \<open>\<^verbatim>\<open>health_check\<close> (lines 990-1016)\<close>

definition health_check :: "env \<Rightarrow> orchestrator \<Rightarrow> bool \<times> orchestrator" where
  "health_check e s =
     (if \<not> server s then (False, s)
      else
        let (stuck, s1) = stuck_workflows e (map snd (active_workflows s)) s
        in (True,
            fold (\<lambda>w st. fail_workflow e (workflow_id w) (PStr ''Workflow timeout'') st)
                 stuck s1))"

text \<open>\<^verbatim>\<open>_handle_health_check\<close> (lines 1103-1117), the handler of \<^verbatim>\<open>GET /health\<close>.\<close>

definition handle_health_check :: "env \<Rightarrow> orchestrator \<Rightarrow> http_response \<times> orchestrator" where
  "handle_health_check e s =
     (let (is_healthy, s1) = health_check e s
      in (\<lparr>status_code = (if is_healthy then 200 else 503),
           body = Json
             [(''status'', PStr (if is_healthy then ''healthy'' else ''unhealthy'')),
              (''agent_id'', PStr (agent_id s1)),
              (''active_workflows'', PInt (int (length (active_workflows s1)))),
              (''available_agents'', PDict
                 [(''rca'', PInt (int (length (rca_agents s1)))),
                  (''remediation'', PInt (int (length (remediation_agents s1)))),
                  (''approval'', PInt (int (length (approval_agents s1))))])]\<rparr>,
          s1))"

text \<open>
  \<^verbatim>\<open>cleanup\<close> (lines 968-988). If stopping the webhook server raises, the \<^verbatim>\<open>except\<close> branch
  logs and the workflows are not visited.
\<close>

definition cleanup :: "env \<Rightarrow> orchestrator \<Rightarrow> orchestrator" where
  "cleanup e s =
     (if server s \<and> server_stop_raises e then s
      else
        let s1 = fold (\<lambda>wid st. fail_workflow e wid (PStr ''System shutdown'') st)
                      (map fst (active_workflows s)) s
        in log_mcp_event e ''orchestrator_shutdown''
             [(''agent_id'', PStr (agent_id s1)),
              (''active_workflows_count'', PInt (int (length (active_workflows s1))))] s1)"

section \<open>Vocabulary of the properties\<close>

text \<open>The record stored under an id, if any.\<close>

abbreviation workflow_of :: "orchestrator \<Rightarrow> string \<Rightarrow> WorkflowState option" where
  "workflow_of s k \<equiv> map_of (active_workflows s) k"

text \<open>
  A well-formed store: a dict has each key once, and every record sits under its own
  \<open>workflow_id\<close> (it is inserted so by \<open>start_incident_workflow\<close>, and neither the key nor the
  field is assigned again).
\<close>

definition store_ok :: "orchestrator \<Rightarrow> bool" where
  "store_ok s \<longleftrightarrow>
     distinct (map fst (active_workflows s)) \<and>
     (\<forall>k w. workflow_of s k = Some w \<longrightarrow> workflow_id w = k)"

text \<open>The audit events emitted between two states.\<close>

definition new_events :: "orchestrator \<Rightarrow> orchestrator \<Rightarrow> mcp_event list" where
  "new_events s s' = drop (length (mcp_log s)) (mcp_log s')"

text \<open>The fields of a record that identify the workflow and are fixed at creation.\<close>

definition same_identity :: "WorkflowState \<Rightarrow> WorkflowState \<Rightarrow> bool" where
  "same_identity w w' \<longleftrightarrow>
     workflow_id w' = workflow_id w \<and> incident_id w' = incident_id w \<and>
     failure_payload w' = failure_payload w \<and> created_at w' = created_at w \<and>
     topology_data w' = topology_data w"

text \<open>The configuration of the orchestrator, which no workflow operation changes.\<close>

definition same_config :: "orchestrator \<Rightarrow> orchestrator \<Rightarrow> bool" where
  "same_config s s' \<longleftrightarrow>
     agent_id s' = agent_id s \<and> server s' = server s \<and> rca_agents s' = rca_agents s \<and>
     remediation_agents s' = remediation_agents s \<and> approval_agents s' = approval_agents s \<and>
     audit_agents s' = audit_agents s \<and> a2a_clients s' = a2a_clients s \<and>
     services s' = services s \<and> uuid_reads s' = uuid_reads s"

text \<open>
  An audit event is told apart by its type and, for the two remediation calls that share a
  type, by the \<^verbatim>\<open>stage\<close> entry of its data. These are the four events that record a mock
  substitution.
\<close>

definition ev_tag :: "mcp_event \<Rightarrow> string \<times> pyval option" where
  "ev_tag ev = (ev_type ev, map_of (ev_data ev) ''stage'')"

definition rca_fallback :: "string \<times> pyval option" where
  "rca_fallback = (''rca_a2a_failed_mock_fallback'', None)"

definition propose_fallback :: "string \<times> pyval option" where
  "propose_fallback = (''remediation_a2a_failed_mock_fallback'', Some (PStr ''propose''))"

definition approval_fallback :: "string \<times> pyval option" where
  "approval_fallback = (''approval_a2a_failed_mock_fallback'', None)"

definition execute_fallback :: "string \<times> pyval option" where
  "execute_fallback = (''remediation_a2a_failed_mock_fallback'', Some (PStr ''execute''))"

text \<open>
  The pipeline position \<open>L\<close> of a function: 1 the RCA trigger, 2 analysis complete,
  3 the proposal trigger, 4 remediation proposed, 5 the approval trigger, 6 approval received,
  7 the execution trigger, 8 execution complete. From position \<open>L\<close> on, the substitution
  events of earlier calls are not emitted and the payloads of earlier stages are not written.
\<close>

definition event_ok :: "nat \<Rightarrow> string \<times> pyval option \<Rightarrow> bool" where
  "event_ok L tg \<longleftrightarrow>
     (1 < L \<longrightarrow> tg \<noteq> rca_fallback) \<and> (3 < L \<longrightarrow> tg \<noteq> propose_fallback) \<and>
     (5 < L \<longrightarrow> tg \<noteq> approval_fallback) \<and> (7 < L \<longrightarrow> tg \<noteq> execute_fallback)"

definition fields_kept :: "nat \<Rightarrow> WorkflowState \<Rightarrow> WorkflowState \<Rightarrow> bool" where
  "fields_kept L w w' \<longleftrightarrow>
     (3 \<le> L \<longrightarrow> analysis_result w' = analysis_result w) \<and>
     (5 \<le> L \<longrightarrow> remediation_action w' = remediation_action w) \<and>
     (7 \<le> L \<longrightarrow> approval_response w' = approval_response w)"

text \<open>
  \<open>touches e K L s s'\<close>: what a run of pipeline code from position \<open>L\<close> on workflows \<open>K\<close> may
  do to the state. The configuration and the keys of the store stay; the audit log grows;
  every record keeps its identity, and a record is either untouched or belongs to \<open>K\<close> and
  carries as \<open>updated_at\<close> a clock reading taken during the run.
\<close>

definition touches :: "env \<Rightarrow> string set \<Rightarrow> nat \<Rightarrow> orchestrator \<Rightarrow> orchestrator \<Rightarrow> bool" where
  "touches e K L s s' \<longleftrightarrow>
     same_config s s' \<and> clock_reads s \<le> clock_reads s' \<and>
     map fst (active_workflows s') = map fst (active_workflows s) \<and>
     (\<exists>new. mcp_log s' = mcp_log s @ new \<and> (\<forall>ev \<in> set new. event_ok L (ev_tag ev))) \<and>
     (\<forall>k w. workflow_of s k = Some w \<longrightarrow>
        (\<exists>w'. workflow_of s' k = Some w' \<and> same_identity w w' \<and> fields_kept L w w' \<and>
              (w' = w \<or> (k \<in> K \<and> (\<exists>n. clock_reads s \<le> n \<and> n < clock_reads s' \<and>
                                        updated_at w' = clock e n)))))"

definition closedK :: "string set \<Rightarrow> orchestrator \<Rightarrow> bool" where
  "closedK K s \<longleftrightarrow> (\<forall>k \<in> K. \<forall>w. workflow_of s k = Some w \<longrightarrow> workflow_id w \<in> K)"

text \<open>A record that has been failed with a given message, and is otherwise the same workflow.\<close>

definition failed_with :: "pyval \<Rightarrow> WorkflowState \<Rightarrow> WorkflowState \<Rightarrow> bool" where
  "failed_with msg w w' \<longleftrightarrow>
     status w' = ''failed'' \<and> error_message w' = Some msg \<and> same_identity w w'"

text \<open>The staleness test of the supervisor and of the health check, at a clock reading \<open>t\<close>.\<close>

definition stale :: "int \<Rightarrow> WorkflowState \<Rightarrow> bool" where
  "stale t w \<longleftrightarrow> t - updated_at w > workflow_timeout"




text \<open>
  The agent lists that code from pipeline position \<open>L\<close> on still consults: the RCA list at the
  RCA trigger, the approval list at the approval trigger, the remediation list at the
  proposal and execution triggers.
\<close>

definition agents_from :: "nat \<Rightarrow> orchestrator \<Rightarrow> bool" where
  "agents_from L s \<longleftrightarrow>
     (L \<le> 1 \<longrightarrow> rca_agents s \<noteq> []) \<and> (L \<le> 5 \<longrightarrow> approval_agents s \<noteq> []) \<and>
     (L \<le> 7 \<longrightarrow> remediation_agents s \<noteq> [])"

text \<open>
  How a run of the pipeline leaves the workflow \<open>wid\<close>: in \<^verbatim>\<open>completed\<close> or \<^verbatim>\<open>failed\<close>, and in
  \<^verbatim>\<open>completed\<close> when \<open>sure\<close> holds.
\<close>

definition pipeline_ends :: "string \<Rightarrow> bool \<Rightarrow> orchestrator \<Rightarrow> bool" where
  "pipeline_ends wid sure s' \<longleftrightarrow>
     (\<exists>w'. workflow_of s' wid = Some w' \<and>
           (status w' = ''completed'' \<or> (\<not> sure \<and> status w' = ''failed'')))"


text \<open>No substitution event at all was emitted between \<open>s\<close> and \<open>s'\<close>.\<close>

definition no_substitution :: "orchestrator \<Rightarrow> orchestrator \<Rightarrow> bool" where
  "no_substitution s s' \<longleftrightarrow>
     filter (\<lambda>ev. ev_tag ev = rca_fallback \<or> ev_tag ev = propose_fallback \<or>
                  ev_tag ev = approval_fallback \<or> ev_tag ev = execute_fallback)
       (new_events s s') = []"

section \<open>Example configurations\<close>

text \<open>
  The state that \<^verbatim>\<open>__init__\<close> builds (no workflows, no agents, no clients, default skill
  names), and the state after \<^verbatim>\<open>initialize\<close>: the webhook server is up, \<^verbatim>\<open>_discover_agents\<close>
  has filled the agent lists, and A2A clients exist for the given services.
\<close>

definition init_orchestrator :: "string \<Rightarrow> orchestrator" where
  "init_orchestrator aid =
     \<lparr>agent_id = aid, server = False, active_workflows = [],
      rca_agents = [], remediation_agents = [], approval_agents = [], audit_agents = [],
      a2a_clients = [],
      services = \<lparr>rca_skill = ''analyze_failure'', approval_skill = ''request_approval'',
                   propose_skill = ''propose_remediation'',
                   execute_skill = ''execute_remediation''\<rparr>,
      mcp_log = [], cleanup_tasks = [], last_heartbeat = None,
      clock_reads = 0, uuid_reads = 0\<rparr>"

definition running_orchestrator :: "string \<Rightarrow> string list \<Rightarrow> orchestrator" where
  "running_orchestrator aid clients =
     (init_orchestrator aid)
       \<lparr>server := True,
        rca_agents := [''rca-agent-localhost:8000''],
        remediation_agents := [''remediation-agent-localhost:8001''],
        approval_agents := [''approval-agent-localhost:8002''],
        audit_agents := [''audit-agent-localhost:8003''],
        a2a_clients := clients\<rparr>"

text \<open>
  An environment in which every remote invocation times out; the clock advances by one
  second per reading.
\<close>

definition demo_env :: env where
  "demo_env =
     \<lparr>clock = (\<lambda>n. int n * 1000000),
      uuid4 = (\<lambda>n. if n = 0 then ''trace-00'' else ''wf-11111111''),
      isoformat = (\<lambda>t. ''2025-01-01T00:00:00''),
      strftime = (\<lambda>t. ''20250101-000000''),
      py_str = (\<lambda>v. ''{}''),
      a2a_remote = (\<lambda>n service skill payload timeout. Raised ''timeout''),
      server_stop_raises = False\<rparr>"

text \<open>A workflow record in a given stage, stamped at time 0.\<close>

definition demo_failure :: FailurePayload where
  "demo_failure =
     \<lparr>test_title = PStr ''checkout test'', fp_status = PStr ''failed'',
      error = [(''message'', PStr ''timeout''), (''stack'', PStr []),
               (''type'', PStr ''TimeoutError'')],
      retries = PInt 2, trace_id = PStr ''t-1'', video_url = PNone, trace_url = PNone,
      timestamp = PStr ''2025-01-01T00:00:00''\<rparr>"

definition demo_workflow :: "string \<Rightarrow> string \<Rightarrow> WorkflowState" where
  "demo_workflow wid stage =
     \<lparr>workflow_id = wid, incident_id = ''inc-20250101-000000-'' @ take 8 wid,
      failure_payload = demo_failure, status = stage, created_at = 0, updated_at = 0,
      analysis_result = None, remediation_action = None, approval_response = None,
      execution_result = None, topology_data = None, error_message = None\<rparr>"

text \<open>A running orchestrator (no A2A clients) that holds the given records.\<close>

definition demo_store :: "(string \<times> WorkflowState) list \<Rightarrow> orchestrator" where
  "demo_store ws = (running_orchestrator ''orch'' [])\<lparr>active_workflows := ws\<rparr>"

text \<open>The same, after \<open>n\<close> readings of the clock (\<open>n\<close> seconds in \<open>demo_env\<close>).\<close>

definition demo_store_at :: "nat \<Rightarrow> (string \<times> WorkflowState) list \<Rightarrow> orchestrator" where
  "demo_store_at n ws = (demo_store ws)\<lparr>clock_reads := n\<rparr>"

text \<open>
  Two records at second 2000: \<^verbatim>\<open>wf-1\<close> was last updated at second 0 (more than 30 minutes
  ago), \<^verbatim>\<open>wf-2\<close> at second 1999.
\<close>

definition demo_two :: orchestrator where
  "demo_two =
     demo_store_at 2000
       [(''wf-1'', demo_workflow ''wf-1'' ''analyzing''),
        (''wf-2'', (demo_workflow ''wf-2'' ''proposing'')\<lparr>updated_at := 1999000000\<rparr>)]"





section \<open>Frame lemmas\<close>

lemma tick_simps [simp]:
  "agent_id (tick s) = agent_id s" "server (tick s) = server s"
  "active_workflows (tick s) = active_workflows s"
  "rca_agents (tick s) = rca_agents s" "remediation_agents (tick s) = remediation_agents s"
  "approval_agents (tick s) = approval_agents s" "audit_agents (tick s) = audit_agents s"
  "a2a_clients (tick s) = a2a_clients s" "services (tick s) = services s"
  "mcp_log (tick s) = mcp_log s" "cleanup_tasks (tick s) = cleanup_tasks s"
  "last_heartbeat (tick s) = last_heartbeat s"
  "clock_reads (tick s) = Suc (clock_reads s)" "uuid_reads (tick s) = uuid_reads s"
  by (simp_all add: tick_def)

lemma mutate_simps [simp]:
  "agent_id (mutate k f s) = agent_id s" "server (mutate k f s) = server s"
  "active_workflows (mutate k f s) = AList.map_entry k f (active_workflows s)"
  "rca_agents (mutate k f s) = rca_agents s" "remediation_agents (mutate k f s) = remediation_agents s"
  "approval_agents (mutate k f s) = approval_agents s" "audit_agents (mutate k f s) = audit_agents s"
  "a2a_clients (mutate k f s) = a2a_clients s" "services (mutate k f s) = services s"
  "mcp_log (mutate k f s) = mcp_log s" "cleanup_tasks (mutate k f s) = cleanup_tasks s"
  "last_heartbeat (mutate k f s) = last_heartbeat s"
  "clock_reads (mutate k f s) = clock_reads s" "uuid_reads (mutate k f s) = uuid_reads s"
  by (simp_all add: mutate_def)

lemma log_mcp_event_simps [simp]:
  "agent_id (log_mcp_event e ty d s) = agent_id s" "server (log_mcp_event e ty d s) = server s"
  "active_workflows (log_mcp_event e ty d s) = active_workflows s"
  "rca_agents (log_mcp_event e ty d s) = rca_agents s"
  "remediation_agents (log_mcp_event e ty d s) = remediation_agents s"
  "approval_agents (log_mcp_event e ty d s) = approval_agents s"
  "audit_agents (log_mcp_event e ty d s) = audit_agents s"
  "a2a_clients (log_mcp_event e ty d s) = a2a_clients s"
  "services (log_mcp_event e ty d s) = services s"
  "cleanup_tasks (log_mcp_event e ty d s) = cleanup_tasks s"
  "last_heartbeat (log_mcp_event e ty d s) = last_heartbeat s"
  "clock_reads (log_mcp_event e ty d s) = Suc (clock_reads s)"
  "uuid_reads (log_mcp_event e ty d s) = uuid_reads s"
  by (simp_all add: log_mcp_event_def datetime_now_def)

lemma log_mcp_event_log [simp]:
  "mcp_log (log_mcp_event e ty d s) = mcp_log s @
     [\<lparr>ev_timestamp = isoformat e (clock e (clock_reads s)), ev_agent_id = agent_id s,
       ev_type = ty, ev_data = d, ev_source = ''orchestrator-agent'', ev_severity = ''INFO''\<rparr>]"
  by (simp add: log_mcp_event_def datetime_now_def)

lemma schedule_cleanup_simps [simp]:
  "agent_id (schedule_cleanup k s) = agent_id s" "server (schedule_cleanup k s) = server s"
  "active_workflows (schedule_cleanup k s) = active_workflows s"
  "rca_agents (schedule_cleanup k s) = rca_agents s"
  "remediation_agents (schedule_cleanup k s) = remediation_agents s"
  "approval_agents (schedule_cleanup k s) = approval_agents s"
  "audit_agents (schedule_cleanup k s) = audit_agents s"
  "a2a_clients (schedule_cleanup k s) = a2a_clients s"
  "services (schedule_cleanup k s) = services s"
  "mcp_log (schedule_cleanup k s) = mcp_log s"
  "cleanup_tasks (schedule_cleanup k s) = cleanup_tasks s @ [k]"
  "last_heartbeat (schedule_cleanup k s) = last_heartbeat s"
  "clock_reads (schedule_cleanup k s) = clock_reads s"
  "uuid_reads (schedule_cleanup k s) = uuid_reads s"
  by (simp_all add: schedule_cleanup_def)


lemma same_identity_refl [simp]: "same_identity w w"
  by (simp add: same_identity_def)

lemma same_identity_trans: "same_identity a b \<Longrightarrow> same_identity b c \<Longrightarrow> same_identity a c"
  by (simp add: same_identity_def)

lemma fields_kept_refl [simp]: "fields_kept L w w"
  by (simp add: fields_kept_def)

lemma fields_kept_trans: "fields_kept L a b \<Longrightarrow> fields_kept L b c \<Longrightarrow> fields_kept L a c"
  by (simp add: fields_kept_def)

lemma touches_refl [simp]: "touches e K L s s"
  by (simp add: touches_def same_config_def)

lemma touches_trans:
  assumes "touches e K L s s1" and "touches e K L s1 s2"
  shows "touches e K L s s2"
proof -
  have cfg: "same_config s s2"
    using assms by (simp add: touches_def same_config_def)
  have clk: "clock_reads s \<le> clock_reads s1" "clock_reads s1 \<le> clock_reads s2"
    using assms by (simp_all add: touches_def)
  have keys: "map fst (active_workflows s2) = map fst (active_workflows s)"
    using assms by (simp add: touches_def)
  obtain n1 where n1: "mcp_log s1 = mcp_log s @ n1" "\<forall>ev \<in> set n1. event_ok L (ev_tag ev)"
    using assms(1) by (auto simp add: touches_def)
  obtain n2 where n2: "mcp_log s2 = mcp_log s1 @ n2" "\<forall>ev \<in> set n2. event_ok L (ev_tag ev)"
    using assms(2) by (auto simp add: touches_def)
  have log: "\<exists>new. mcp_log s2 = mcp_log s @ new \<and> (\<forall>ev \<in> set new. event_ok L (ev_tag ev))"
    using n1 n2 by (intro exI [of _ "n1 @ n2"]) auto
  have recs: "\<exists>w'. map_of (active_workflows s2) k = Some w' \<and> same_identity w w' \<and>
              fields_kept L w w' \<and>
              (w' = w \<or> (k \<in> K \<and> (\<exists>n. clock_reads s \<le> n \<and> n < clock_reads s2 \<and>
                                        updated_at w' = clock e n)))"
    if "map_of (active_workflows s) k = Some w" for k w
  proof -
    from assms(1) that obtain w1 where w1: "map_of (active_workflows s1) k = Some w1"
      "same_identity w w1" "fields_kept L w w1"
      "w1 = w \<or> (k \<in> K \<and> (\<exists>n. clock_reads s \<le> n \<and> n < clock_reads s1 \<and>
                                        updated_at w1 = clock e n))"
      unfolding touches_def by blast
    from assms(2) w1(1) obtain w2 where w2: "map_of (active_workflows s2) k = Some w2"
      "same_identity w1 w2" "fields_kept L w1 w2"
      "w2 = w1 \<or> (k \<in> K \<and> (\<exists>n. clock_reads s1 \<le> n \<and> n < clock_reads s2 \<and>
                                        updated_at w2 = clock e n))"
      unfolding touches_def by blast
    have st: "w2 = w \<or> (k \<in> K \<and> (\<exists>n. clock_reads s \<le> n \<and> n < clock_reads s2 \<and>
                                        updated_at w2 = clock e n))"
      using w1(4) w2(4) clk
      by (metis le_trans less_le_trans)
    show ?thesis
      using w2(1) same_identity_trans [OF w1(2) w2(2)] fields_kept_trans [OF w1(3) w2(3)] st
      by blast
  qed
  show ?thesis
    unfolding touches_def using cfg clk keys log recs by (simp add: le_trans [OF clk])
qed

lemma touches_weaken:
  "touches e K L s s' \<Longrightarrow> L' \<le> L \<Longrightarrow> K \<subseteq> K' \<Longrightarrow> touches e K' L' s s'"
  unfolding touches_def event_ok_def fields_kept_def
  by (fastforce)


lemma map_fst_map_entry [simp]: "map fst (AList.map_entry k f xs) = map fst xs"
  by (induction xs) auto

lemma map_of_map_entry_same:
  "map_of xs k = Some v \<Longrightarrow> map_of (AList.map_entry k f xs) k = Some (f v)"
  by (simp add: map_of_map_entry)

lemma map_of_map_entry_other:
  "k' \<noteq> k \<Longrightarrow> map_of (AList.map_entry k f xs) k' = map_of xs k'"
  by (simp add: map_of_map_entry)

lemma touches_tick: "touches e K L s (tick s)"
  by (simp add: touches_def same_config_def)

lemma touches_schedule: "touches e K L s (schedule_cleanup k s)"
  by (simp add: touches_def same_config_def)

lemma touches_log:
  "event_ok L (ty, map_of d ''stage'') \<Longrightarrow> touches e K L s (log_mcp_event e ty d s)"
  by (simp add: touches_def same_config_def ev_tag_def)

lemma touches_stamp:
  assumes "wid \<in> K"
    and "\<And>w. map_of (active_workflows s) wid = Some w \<Longrightarrow>
           same_identity w (f w) \<and> fields_kept L w (f w) \<and>
           updated_at (f w) = clock e (clock_reads s)"
  shows "touches e K L s (mutate wid f (tick s))"
proof -
  have "\<exists>w'. map_of (AList.map_entry wid f (active_workflows s)) k = Some w' \<and>
          same_identity w w' \<and> fields_kept L w w' \<and>
          (w' = w \<or> (k \<in> K \<and> (\<exists>n. clock_reads s \<le> n \<and> n < Suc (clock_reads s) \<and>
                                        updated_at w' = clock e n)))"
    if "map_of (active_workflows s) k = Some w" for k w
  proof (cases "k = wid")
    case True
    then show ?thesis
      using that assms by (auto simp add: map_of_map_entry_same)
  next
    case False
    then show ?thesis
      using that by (simp add: map_of_map_entry_other)
  qed
  then show ?thesis
    by (simp add: touches_def same_config_def)
qed

lemma touches_tickI: "touches e K L s s1 \<Longrightarrow> touches e K L s (tick s1)"
  by (erule touches_trans) (rule touches_tick)

lemma touches_scheduleI: "touches e K L s s1 \<Longrightarrow> touches e K L s (schedule_cleanup k s1)"
  by (erule touches_trans) (rule touches_schedule)

lemma touches_logI:
  "touches e K L s s1 \<Longrightarrow> event_ok L (ty, map_of d ''stage'')
     \<Longrightarrow> touches e K L s (log_mcp_event e ty d s1)"
  by (erule touches_trans) (rule touches_log)

lemma touches_stampI:
  "touches e K L s s1 \<Longrightarrow> wid \<in> K \<Longrightarrow>
   (\<And>w. map_of (active_workflows s1) wid = Some w \<Longrightarrow>
           same_identity w (f w) \<and> fields_kept L w (f w) \<and>
           updated_at (f w) = clock e (clock_reads s1))
   \<Longrightarrow> touches e K L s (mutate wid f (tick s1))"
  by (erule touches_trans) (rule touches_stamp)



lemma same_keys_lookup:
  assumes "map fst xs = map fst ys" and "map_of ys k = Some v"
  shows "\<exists>u. map_of xs k = Some u"
proof -
  have "k \<in> fst ` set ys"
    using assms(2) by (metis map_of_eq_None_iff option.distinct(1))
  then have "k \<in> set (map fst xs)"
    using assms(1) by simp
  then have "map_of xs k \<noteq> None"
    by (simp add: map_of_eq_None_iff)
  then show ?thesis by blast
qed

lemma touches_lookup_back:
  assumes "touches e K L s s1" and "map_of (active_workflows s1) k = Some w1"
  shows "\<exists>w. map_of (active_workflows s) k = Some w \<and> same_identity w w1 \<and> fields_kept L w w1
             \<and> (w1 = w \<or> (k \<in> K \<and> (\<exists>n. clock_reads s \<le> n \<and> n < clock_reads s1 \<and>
                                        updated_at w1 = clock e n)))"
proof -
  have "map fst (active_workflows s) = map fst (active_workflows s1)"
    using assms(1) by (simp add: touches_def)
  from same_keys_lookup [OF this assms(2)]
  obtain w where w: "map_of (active_workflows s) k = Some w" by blast
  with assms(1) obtain w' where "map_of (active_workflows s1) k = Some w'"
    "same_identity w w'" "fields_kept L w w'"
    "w' = w \<or> (k \<in> K \<and> (\<exists>n. clock_reads s \<le> n \<and> n < clock_reads s1 \<and>
                                        updated_at w' = clock e n))"
    unfolding touches_def by blast
  with assms(2) w show ?thesis by auto
qed

lemma closedK_touches:
  assumes "touches e K L s s1" and "closedK K s"
  shows "closedK K s1"
  unfolding closedK_def
proof (intro ballI allI impI)
  fix k w1
  assume k: "k \<in> K" and l: "map_of (active_workflows s1) k = Some w1"
  from touches_lookup_back [OF assms(1) l]
  obtain w where "map_of (active_workflows s) k = Some w" "same_identity w w1" by blast
  then show "workflow_id w1 \<in> K"
    using assms(2) k by (auto simp add: closedK_def same_identity_def)
qed

lemma closedKD:
  "closedK K s \<Longrightarrow> k \<in> K \<Longrightarrow> map_of (active_workflows s) k = Some w \<Longrightarrow> workflow_id w \<in> K"
  by (auto simp add: closedK_def)

lemma event_ok_plain [simp]:
  "ty \<noteq> ''rca_a2a_failed_mock_fallback'' \<Longrightarrow> ty \<noteq> ''remediation_a2a_failed_mock_fallback''
   \<Longrightarrow> ty \<noteq> ''approval_a2a_failed_mock_fallback'' \<Longrightarrow> event_ok L (ty, x)"
  by (simp add: event_ok_def rca_fallback_def propose_fallback_def approval_fallback_def
      execute_fallback_def)

lemma touches_a2a_call:
  "touches e K L s (snd (a2a_call e service skill payload timeout cid s))"
  by (auto simp add: a2a_call_def split: call_outcome.splits intro!: touches_log)

lemma touches_a2a_callI:
  "touches e K L s s1 \<Longrightarrow> touches e K L s (snd (a2a_call e service skill payload timeout cid s1))"
  by (erule touches_trans) (rule touches_a2a_call)

lemmas touches_prims = touches_tickI touches_scheduleI touches_logI touches_stampI touches_a2a_callI

lemma touches_fail: "wid \<in> K \<Longrightarrow> touches e K L s (fail_workflow e wid msg s)"
  by (auto simp add: fail_workflow_def Let_def datetime_now_def same_identity_def fields_kept_def
      split: option.splits intro!: touches_prims)

lemma touches_failI:
  "touches e K L s s1 \<Longrightarrow> wid \<in> K \<Longrightarrow> touches e K L s (fail_workflow e wid msg s1)"
  by (erule touches_trans) (rule touches_fail)


lemma touches_complete:
  "wid \<in> K \<Longrightarrow> touches e K L s (complete_workflow e wid r s)"
  by (auto simp add: complete_workflow_def Let_def datetime_now_def same_identity_def
      fields_kept_def split: option.splits intro!: touches_prims)

lemma touches_completeI:
  "touches e K L s s1 \<Longrightarrow> wid \<in> K \<Longrightarrow> touches e K L s (complete_workflow e wid r s1)"
  by (erule touches_trans) (rule touches_complete)

lemma touches_exec_done:
  "wid \<in> K \<Longrightarrow> touches e K L s (handle_execution_complete e wid r s)"
  by (auto simp add: handle_execution_complete_def Let_def datetime_now_def same_identity_def
      fields_kept_def split: option.splits intro!: touches_prims touches_completeI)

lemma touches_exec_doneI:
  "touches e K L s s1 \<Longrightarrow> wid \<in> K \<Longrightarrow> touches e K L s (handle_execution_complete e wid r s1)"
  by (erule touches_trans) (rule touches_exec_done)


lemmas tag_defs = event_ok_def rca_fallback_def propose_fallback_def approval_fallback_def
  execute_fallback_def

lemma touches_call_exec:
  "workflow_id ws \<in> K \<Longrightarrow> L \<le> 7 \<Longrightarrow> touches e K L s (call_remediation_execution e ws s)"
  by (auto simp add: call_remediation_execution_def Let_def datetime_now_def split_beta same_identity_def fields_kept_def tag_defs
      split: sum.splits intro!: touches_prims touches_exec_doneI)

lemma touches_call_execI:
  "touches e K L s s1 \<Longrightarrow> workflow_id ws \<in> K \<Longrightarrow> L \<le> 7
     \<Longrightarrow> touches e K L s (call_remediation_execution e ws s1)"
  by (erule touches_trans) (rule touches_call_exec)

lemma touches_trigger_exec:
  "workflow_id ws \<in> K \<Longrightarrow> L \<le> 7 \<Longrightarrow> touches e K L s (trigger_remediation_execution e ws s)"
  by (auto simp add: trigger_remediation_execution_def Let_def datetime_now_def split_beta same_identity_def fields_kept_def tag_defs
      intro!: touches_prims touches_failI touches_call_execI)

lemma touches_trigger_execI:
  "touches e K L s s1 \<Longrightarrow> workflow_id ws \<in> K \<Longrightarrow> L \<le> 7
     \<Longrightarrow> touches e K L s (trigger_remediation_execution e ws s1)"
  by (erule touches_trans) (rule touches_trigger_exec)

lemma touches_approval_received:
  assumes "closedK K s" and "wid \<in> K" and "L \<le> 6"
  shows "touches e K L s (handle_approval_received e wid r s)"
proof (cases "workflow_of s wid")
  case None
  then show ?thesis by (simp add: handle_approval_received_def)
next
  case (Some w)
  have "workflow_id w \<in> K"
    using closedKD [OF assms(1,2) Some] .
  then show ?thesis
    using Some assms
    by (auto simp add: handle_approval_received_def Let_def datetime_now_def split_beta same_identity_def fields_kept_def tag_defs
        intro!: touches_prims touches_completeI touches_trigger_execI)
qed

lemma touches_approval_receivedI:
  "touches e K L s s1 \<Longrightarrow> closedK K s \<Longrightarrow> wid \<in> K \<Longrightarrow> L \<le> 6 \<Longrightarrow> touches e K L s (handle_approval_received e wid r s1)"
  by (rule touches_trans [OF _ touches_approval_received [OF closedK_touches]])


lemma touches_call_approval:
  "closedK K s \<Longrightarrow> workflow_id ws \<in> K \<Longrightarrow> L \<le> 5
     \<Longrightarrow> touches e K L s (call_approval_request e ws s)"
  by (auto simp add: call_approval_request_def Let_def datetime_now_def split_beta same_identity_def fields_kept_def tag_defs
      split: sum.splits intro!: touches_prims touches_approval_receivedI)

lemma touches_call_approvalI:
  "touches e K L s s1 \<Longrightarrow> closedK K s \<Longrightarrow> workflow_id ws \<in> K \<Longrightarrow> L \<le> 5 \<Longrightarrow> touches e K L s (call_approval_request e ws s1)"
  by (rule touches_trans [OF _ touches_call_approval [OF closedK_touches]])


lemma touches_trigger_approval:
  "closedK K s \<Longrightarrow> workflow_id ws \<in> K \<Longrightarrow> L \<le> 5
     \<Longrightarrow> touches e K L s (trigger_approval_request e ws s)"
  by (auto simp add: trigger_approval_request_def Let_def datetime_now_def split_beta same_identity_def fields_kept_def tag_defs
      intro!: touches_prims touches_failI touches_call_approvalI)



















subsection \<open>Failing workflows\<close>

lemma fail_workflow_absent:
  "workflow_of s wid = None \<Longrightarrow> fail_workflow e wid msg s = s"
  by (simp add: fail_workflow_def)

lemma fail_workflow_same:
  "workflow_of s wid = Some w \<Longrightarrow>
   workflow_of (fail_workflow e wid msg s) wid =
     Some (w\<lparr>status := ''failed'', updated_at := clock e (clock_reads s),
             error_message := Some msg\<rparr>)"
  by (simp add: fail_workflow_def Let_def datetime_now_def map_of_map_entry_same)

lemma fail_workflow_other:
  "k \<noteq> wid \<Longrightarrow> workflow_of (fail_workflow e wid msg s) k = workflow_of s k"
  by (simp add: fail_workflow_def Let_def datetime_now_def map_of_map_entry_other
      split: option.splits)

lemma fail_workflow_failed_with:
  "workflow_of s wid = Some w \<Longrightarrow>
   \<exists>w'. workflow_of (fail_workflow e wid msg s) wid = Some w' \<and> failed_with msg w w'"
  by (simp add: fail_workflow_same failed_with_def same_identity_def)

lemma failed_with_again:
  "failed_with msg w w1 \<Longrightarrow> failed_with msg w1 w2 \<Longrightarrow> failed_with msg w w2"
  by (simp add: failed_with_def same_identity_def)

lemma fold_fail_other:
  "k \<notin> set ks \<Longrightarrow>
   workflow_of (fold (\<lambda>wid. fail_workflow e wid msg) ks s) k = workflow_of s k"
  by (induction ks arbitrary: s) (auto simp add: fail_workflow_other)

lemma fold_fail_member:
  "k \<in> set ks \<Longrightarrow> workflow_of s k = Some w \<Longrightarrow>
   \<exists>w'. workflow_of (fold (\<lambda>wid. fail_workflow e wid msg) ks s) k = Some w'
        \<and> failed_with msg w w'"
proof (induction ks arbitrary: s w)
  case Nil
  then show ?case by simp
next
  case (Cons a ks)
  show ?case
  proof (cases "a = k")
    case True
    from fail_workflow_failed_with [OF Cons.prems(2), of e msg]
    obtain w1 where w1: "workflow_of (fail_workflow e k msg s) k = Some w1"
      "failed_with msg w w1" by blast
    show ?thesis
    proof (cases "k \<in> set ks")
      case True
      from Cons.IH [OF True w1(1)] obtain w' where
        "workflow_of (fold (\<lambda>wid. fail_workflow e wid msg) ks (fail_workflow e k msg s)) k
           = Some w'" "failed_with msg w1 w'" by blast
      then show ?thesis
        using \<open>a = k\<close> failed_with_again [OF w1(2)] by auto
    next
      case False
      then show ?thesis
        using \<open>a = k\<close> w1 by (simp add: fold_fail_other)
    qed
  next
    case False
    then have "k \<in> set ks" using Cons.prems(1) by simp
    moreover have "workflow_of (fail_workflow e a msg s) k = Some w"
      using False Cons.prems(2) by (simp add: fail_workflow_other)
    ultimately show ?thesis
      using Cons.IH by simp
  qed
qed

subsection \<open>The supervisor loop\<close>

lemma monitor_fold_other:
  "k \<notin> fst ` set xs \<Longrightarrow>
   workflow_of (fold (\<lambda>(wid, ws) st. if stale t ws then fail_workflow e wid msg st else st) xs s) k
     = workflow_of s k"
  by (induction xs arbitrary: s) (auto simp add: fail_workflow_other)

lemma monitor_fold_member:
  assumes "distinct (map fst xs)" and "(k, w) \<in> set xs" and "workflow_of s k = Some w0"
  shows "(stale t w \<longrightarrow>
            (\<exists>w'. workflow_of (fold (\<lambda>(wid, ws) st. if stale t ws then fail_workflow e wid msg st
                                       else st) xs s) k = Some w' \<and> failed_with msg w0 w'))
       \<and> (\<not> stale t w \<longrightarrow>
            workflow_of (fold (\<lambda>(wid, ws) st. if stale t ws then fail_workflow e wid msg st
                                else st) xs s) k = Some w0)"
  using assms
proof (induction xs arbitrary: s)
  case Nil
  then show ?case by simp
next
  case (Cons x xs)
  obtain a wa where x: "x = (a, wa)" by (cases x)
  show ?case
  proof (cases "a = k")
    case True
    then have notin: "k \<notin> fst ` set xs" and weq: "wa = w"
      using Cons.prems(1,2) x by (auto simp add: image_iff)
    show ?thesis
      using x True weq Cons.prems(3) fail_workflow_failed_with [OF Cons.prems(3), of e msg]
      by (auto simp add: monitor_fold_other [OF notin])
  next
    case False
    then have mem: "(k, w) \<in> set xs" and d: "distinct (map fst xs)"
      using Cons.prems(1,2) x by auto
    have keep: "workflow_of (if stale t wa then fail_workflow e a msg s else s) k = Some w0"
      using False Cons.prems(3) by (simp add: fail_workflow_other)
    show ?thesis
      using Cons.IH [OF d mem keep] x by simp
  qed
qed

subsection \<open>The health check\<close>

lemma stuck_workflows_subset: "set (fst (stuck_workflows e ws s)) \<subseteq> set ws"
  by (induction ws arbitrary: s) (auto simp add: split_beta Let_def datetime_now_def)

lemma stuck_workflows_state:
  "snd (stuck_workflows e ws s) = s\<lparr>clock_reads := clock_reads s + length ws\<rparr>"
  by (induction ws arbitrary: s) (simp_all add: split_beta Let_def datetime_now_def tick_def)

lemma stuck_workflows_ids:
  "distinct (map workflow_id ws) \<Longrightarrow> i < length ws \<Longrightarrow>
   workflow_id (ws ! i) \<in> workflow_id ` set (fst (stuck_workflows e ws s))
     \<longleftrightarrow> stale (clock e (clock_reads s + i)) (ws ! i)"
proof (induction ws arbitrary: s i)
  case Nil
  then show ?case by simp
next
  case (Cons w ws)
  have sub: "set (fst (stuck_workflows e ws (tick s))) \<subseteq> set ws"
    by (rule stuck_workflows_subset)
  show ?case
  proof (cases i)
    case 0
    have "workflow_id w \<notin> workflow_id ` set (fst (stuck_workflows e ws (tick s)))"
      using Cons.prems(1) sub by auto
    then show ?thesis
      using 0 by (auto simp add: split_beta Let_def datetime_now_def stale_def)
  next
    case (Suc j)
    then have j: "j < length ws" using Cons.prems(2) by simp
    have ne: "workflow_id (ws ! j) \<noteq> workflow_id w"
      using Cons.prems(1) j by (metis distinct.simps(2) image_eqI list.simps(9) nth_mem set_map)
    have d: "distinct (map workflow_id ws)" using Cons.prems(1) by simp
    show ?thesis
      using Suc ne Cons.IH [OF d j, of "tick s"]
      by (auto simp add: split_beta Let_def datetime_now_def)
  qed
qed

lemma store_ok_ids:
  assumes "store_ok s"
  shows "map workflow_id (map snd (active_workflows s)) = map fst (active_workflows s)"
proof -
  have "workflow_id (snd p) = fst p" if "p \<in> set (active_workflows s)" for p
  proof -
    have "workflow_of s (fst p) = Some (snd p)"
      using assms that by (simp add: store_ok_def)
    then show ?thesis using assms by (simp add: store_ok_def)
  qed
  then show ?thesis by simp
qed

lemma health_check_sweep:
  assumes "server s" and "store_ok s"
    and "i < length (active_workflows s)" and "active_workflows s ! i = (k, w)"
  shows "fst (health_check e s) = True"
    and "stale (clock e (clock_reads s + i)) w \<Longrightarrow>
           \<exists>w'. workflow_of (snd (health_check e s)) k = Some w'
                \<and> failed_with (PStr ''Workflow timeout'') w w'"
    and "\<not> stale (clock e (clock_reads s + i)) w \<Longrightarrow>
           workflow_of (snd (health_check e s)) k = Some w"
proof -
  let ?ws = "map snd (active_workflows s)"
  let ?stuck = "fst (stuck_workflows e ?ws s)"
  let ?s1 = "snd (stuck_workflows e ?ws s)"
  let ?msg = "PStr ''Workflow timeout''"
  have "distinct (map fst (active_workflows s))"
    using assms(2) by (simp add: store_ok_def)
  then have d: "distinct (map workflow_id ?ws)"
    by (simp only: store_ok_ids [OF assms(2)])
  have mem: "(k, w) \<in> set (active_workflows s)"
    using assms(3,4) by (metis nth_mem)
  have look: "workflow_of s k = Some w"
    using assms(2) mem by (simp add: store_ok_def)
  have kid: "workflow_id w = k"
    using assms(2) look by (simp add: store_ok_def)
  have wi: "?ws ! i = w"
    using assms(3,4) by simp
  have iff: "k \<in> set (map workflow_id ?stuck) \<longleftrightarrow> stale (clock e (clock_reads s + i)) w"
    using stuck_workflows_ids [OF d, of i e s] assms(3) wi kid by simp
  have look1: "workflow_of ?s1 k = Some w"
    using look by (simp add: stuck_workflows_state)
  have final: "snd (health_check e s)
                 = fold (\<lambda>wid. fail_workflow e wid ?msg) (map workflow_id ?stuck) ?s1"
    using assms(1) by (simp add: health_check_def split_beta fold_map comp_def)
  show "fst (health_check e s) = True"
    using assms(1) by (simp add: health_check_def split_beta)
  show "\<exists>w'. workflow_of (snd (health_check e s)) k = Some w' \<and> failed_with ?msg w w'"
    if "stale (clock e (clock_reads s + i)) w"
    using that iff fold_fail_member [OF _ look1, of "map workflow_id ?stuck" e ?msg] final
    by simp
  show "workflow_of (snd (health_check e s)) k = Some w"
    if "\<not> stale (clock e (clock_reads s + i)) w"
    using that iff fold_fail_other [of k "map workflow_id ?stuck" e ?msg ?s1] final look1
    by simp
qed

subsection \<open>Ingress\<close>

lemma closedK_UNIV [simp]: "closedK UNIV s"
  by (simp add: closedK_def)



lemma touches_lookup:
  "touches e K L s s' \<Longrightarrow> workflow_of s k = Some w \<Longrightarrow>
   \<exists>w'. workflow_of s' k = Some w' \<and> same_identity w w' \<and> fields_kept L w w'
        \<and> (w' = w \<or> (k \<in> K \<and> (\<exists>n. clock_reads s \<le> n \<and> n < clock_reads s' \<and>
                                        updated_at w' = clock e n)))"
  unfolding touches_def by blast



subsection \<open>Invariants\<close>























subsection \<open>The pipeline runs to a terminal stage\<close>

lemma a2a_call_state_simps [simp]:
  "agent_id (snd (a2a_call e sv sk p t c s)) = agent_id s"
  "server (snd (a2a_call e sv sk p t c s)) = server s"
  "active_workflows (snd (a2a_call e sv sk p t c s)) = active_workflows s"
  "rca_agents (snd (a2a_call e sv sk p t c s)) = rca_agents s"
  "remediation_agents (snd (a2a_call e sv sk p t c s)) = remediation_agents s"
  "approval_agents (snd (a2a_call e sv sk p t c s)) = approval_agents s"
  "a2a_clients (snd (a2a_call e sv sk p t c s)) = a2a_clients s"
  "services (snd (a2a_call e sv sk p t c s)) = services s"
  by (simp_all add: a2a_call_def split: call_outcome.split)

lemma store_ok_cong:
  "active_workflows s' = active_workflows s \<Longrightarrow> store_ok s' = store_ok s"
  by (simp add: store_ok_def)

lemma store_ok_simps [simp]:
  "store_ok (tick s) = store_ok s"
  "store_ok (log_mcp_event e ty d s) = store_ok s"
  "store_ok (schedule_cleanup k s) = store_ok s"
  "store_ok (snd (a2a_call e sv sk p t c s)) = store_ok s"
  by (simp_all add: store_ok_def)

lemma store_ok_mutate:
  assumes "store_ok s" and "\<And>w. workflow_of s wid = Some w \<Longrightarrow> workflow_id (f w) = wid"
  shows "store_ok (mutate wid f s)"
  using assms
  by (auto simp add: store_ok_def map_of_map_entry split: if_splits option.splits)

lemma store_ok_id: "store_ok s \<Longrightarrow> workflow_of s k = Some w \<Longrightarrow> workflow_id w = k"
  by (simp add: store_ok_def)

lemma closedK_single: "store_ok s \<Longrightarrow> closedK {wid} s"
  by (simp add: closedK_def store_ok_def)

lemma pipeline_ends_weaken: "pipeline_ends wid True s \<Longrightarrow> pipeline_ends wid b s"
  by (auto simp add: pipeline_ends_def)

lemma fail_ends:
  "workflow_of s wid = Some w \<Longrightarrow> pipeline_ends wid False (fail_workflow e wid msg s)"
  by (simp add: pipeline_ends_def fail_workflow_same)

lemma complete_ends:
  "workflow_of s wid = Some w \<Longrightarrow> pipeline_ends wid b (complete_workflow e wid r s)"
  by (simp add: pipeline_ends_def complete_workflow_def Let_def datetime_now_def
      map_of_map_entry_same)

lemma exec_done_ends:
  "workflow_of s wid = Some w \<Longrightarrow> pipeline_ends wid b (handle_execution_complete e wid r s)"
  by (simp add: handle_execution_complete_def Let_def datetime_now_def
      map_of_map_entry_same complete_ends)

lemma call_exec_ends:
  "workflow_of s (workflow_id ws) = Some w \<Longrightarrow>
   pipeline_ends (workflow_id ws) b (call_remediation_execution e ws s)"
  by (simp add: call_remediation_execution_def Let_def split_beta exec_done_ends
      split: sum.split)

lemma trigger_exec_ends:
  "workflow_of s (workflow_id ws) = Some w \<Longrightarrow>
   pipeline_ends (workflow_id ws) (agents_from 7 s) (trigger_remediation_execution e ws s)"
  by (simp add: trigger_remediation_execution_def Let_def datetime_now_def agents_from_def
      fail_ends call_exec_ends map_of_map_entry_same)

lemma touches_store_ok: "touches e K L s s' \<Longrightarrow> store_ok s \<Longrightarrow> store_ok s'"
proof -
  assume t: "touches e K L s s'" and ok: "store_ok s"
  have "workflow_id w' = k" if "workflow_of s' k = Some w'" for k w'
    using touches_lookup_back [OF t that] ok
    by (auto simp add: store_ok_def same_identity_def)
  moreover have "distinct (map fst (active_workflows s'))"
    using t ok by (simp add: touches_def store_ok_def)
  ultimately show ?thesis by (simp add: store_ok_def)
qed

lemma touches_agents: "touches e K L s s' \<Longrightarrow> agents_from M s' = agents_from M s"
  by (simp add: touches_def same_config_def agents_from_def)

text \<open>The shape of the handlers: a write to the record, then the next step.\<close>

lemma approval_received_shape:
  assumes "workflow_of s wid = Some w" and "L \<le> 6"
  shows "\<exists>s3. handle_approval_received e wid r s =
           (if dict_get r ''decision'' PNone = PStr ''approve''
            then trigger_remediation_execution e
                   (w\<lparr>approval_response := Some r, updated_at := clock e (clock_reads s)\<rparr>) s3
            else complete_workflow e wid
                   [(''status'', PStr ''rejected''),
                    (''reason'', dict_get r ''reason'' (PStr ''Rejected by approver''))] s3)
         \<and> workflow_of s3 wid
             = Some (w\<lparr>approval_response := Some r, updated_at := clock e (clock_reads s)\<rparr>)
         \<and> touches e {wid} L s s3"
  using assms
  apply (simp add: handle_approval_received_def Let_def datetime_now_def split del: if_split)
  apply (intro exI conjI)
    apply (rule refl)
   apply (simp add: map_of_map_entry_same)
  apply (auto simp add: same_identity_def fields_kept_def intro!: touches_prims)
  done

lemma remediation_proposed_shape:
  assumes "workflow_of s wid = Some w" and "L \<le> 4"
  shows "\<exists>s3. handle_remediation_proposed e wid r s =
           trigger_approval_request e
             (w\<lparr>remediation_action := Some r, updated_at := clock e (clock_reads s)\<rparr>) s3
         \<and> workflow_of s3 wid
             = Some (w\<lparr>remediation_action := Some r, updated_at := clock e (clock_reads s)\<rparr>)
         \<and> touches e {wid} L s s3"
  using assms
  apply (simp add: handle_remediation_proposed_def Let_def datetime_now_def)
  apply (intro exI conjI)
    apply (rule refl)
   apply (simp add: map_of_map_entry_same)
  apply (auto simp add: same_identity_def fields_kept_def intro!: touches_prims)
  done

lemma analysis_complete_shape:
  assumes "workflow_of s wid = Some w" and "L \<le> 2"
  shows "\<exists>s3. handle_analysis_complete e wid r s =
           trigger_remediation_proposal e
             (w\<lparr>analysis_result := Some r, updated_at := clock e (clock_reads s)\<rparr>) s3
         \<and> workflow_of s3 wid
             = Some (w\<lparr>analysis_result := Some r, updated_at := clock e (clock_reads s)\<rparr>)
         \<and> touches e {wid} L s s3"
  using assms
  apply (simp add: handle_analysis_complete_def Let_def datetime_now_def)
  apply (intro exI conjI)
    apply (rule refl)
   apply (simp add: map_of_map_entry_same)
  apply (auto simp add: same_identity_def fields_kept_def intro!: touches_prims)
  done

text \<open>The shape of the triggers when the agent list is not empty: the stage is written,
  then the remote call is made.\<close>

lemma trigger_exec_shape:
  assumes "workflow_of s (workflow_id ws) = Some w" and "remediation_agents s \<noteq> []"
  shows "\<exists>s3. trigger_remediation_execution e ws s = call_remediation_execution e ws s3
         \<and> workflow_of s3 (workflow_id ws)
             = Some (w\<lparr>status := ''executing'', updated_at := clock e (clock_reads s)\<rparr>)
         \<and> touches e {workflow_id ws} 8 s s3"
  using assms
  apply (simp add: trigger_remediation_execution_def Let_def datetime_now_def)
  apply (intro exI conjI)
    apply (rule refl)
   apply (simp add: map_of_map_entry_same)
  apply (auto simp add: same_identity_def fields_kept_def intro!: touches_prims)
  done

lemma trigger_approval_shape:
  assumes "workflow_of s (workflow_id ws) = Some w" and "approval_agents s \<noteq> []"
  shows "\<exists>s3. trigger_approval_request e ws s = call_approval_request e ws s3
         \<and> workflow_of s3 (workflow_id ws)
             = Some (w\<lparr>status := ''awaiting_approval'', updated_at := clock e (clock_reads s)\<rparr>)
         \<and> touches e {workflow_id ws} 8 s s3"
  using assms
  apply (simp add: trigger_approval_request_def Let_def datetime_now_def)
  apply (intro exI conjI)
    apply (rule refl)
   apply (simp add: map_of_map_entry_same)
  apply (auto simp add: same_identity_def fields_kept_def intro!: touches_prims)
  done

lemma trigger_proposal_shape:
  assumes "workflow_of s (workflow_id ws) = Some w" and "remediation_agents s \<noteq> []"
  shows "\<exists>s3. trigger_remediation_proposal e ws s = call_remediation_proposal e ws s3
         \<and> workflow_of s3 (workflow_id ws)
             = Some (w\<lparr>status := ''proposing'', updated_at := clock e (clock_reads s)\<rparr>)
         \<and> touches e {workflow_id ws} 8 s s3"
  using assms
  apply (simp add: trigger_remediation_proposal_def Let_def datetime_now_def)
  apply (intro exI conjI)
    apply (rule refl)
   apply (simp add: map_of_map_entry_same)
  apply (auto simp add: same_identity_def fields_kept_def intro!: touches_prims)
  done

lemma trigger_rca_shape:
  assumes "workflow_of s (workflow_id ws) = Some w" and "rca_agents s \<noteq> []"
  shows "\<exists>s3. trigger_rca_analysis e ws s = call_rca_analysis e ws s3
         \<and> workflow_of s3 (workflow_id ws)
             = Some (w\<lparr>status := ''analyzing'', updated_at := clock e (clock_reads s)\<rparr>)
         \<and> touches e {workflow_id ws} 8 s s3"
  using assms
  apply (simp add: trigger_rca_analysis_def Let_def datetime_now_def)
  apply (intro exI conjI)
    apply (rule refl)
   apply (simp add: map_of_map_entry_same)
  apply (auto simp add: same_identity_def fields_kept_def intro!: touches_prims)
  done

lemma pipeline_ends_mono:
  "pipeline_ends wid sure s \<Longrightarrow> (sure' \<Longrightarrow> sure) \<Longrightarrow> pipeline_ends wid sure' s"
  by (auto simp add: pipeline_ends_def)

lemma agents_from_simps [simp]:
  "agents_from M (tick s) = agents_from M s"
  "agents_from M (log_mcp_event e ty d s) = agents_from M s"
  "agents_from M (mutate k f s) = agents_from M s"
  "agents_from M (snd (a2a_call e sv sk p t c s)) = agents_from M s"
  by (simp_all add: agents_from_def)

lemma approval_received_ends:
  assumes ok: "store_ok s" and l: "workflow_of s wid = Some w"
  shows "pipeline_ends wid (agents_from 6 s) (handle_approval_received e wid r s)"
proof -
  let ?ws = "w\<lparr>approval_response := Some r, updated_at := clock e (clock_reads s)\<rparr>"
  have id: "workflow_id ?ws = wid"
    using store_ok_id [OF ok l] by simp
  from approval_received_shape [OF l, of 6 e r] obtain s3 where
    s3: "handle_approval_received e wid r s =
           (if dict_get r ''decision'' PNone = PStr ''approve''
            then trigger_remediation_execution e ?ws s3
            else complete_workflow e wid
                   [(''status'', PStr ''rejected''),
                    (''reason'', dict_get r ''reason'' (PStr ''Rejected by approver''))] s3)"
    and l3: "workflow_of s3 wid = Some ?ws" and t: "touches e {wid} 6 s s3"
    by auto
  have a: "agents_from 7 s3 = agents_from 6 s"
    using touches_agents [OF t, of 7] by (simp add: agents_from_def)
  have "pipeline_ends wid (agents_from 7 s3) (trigger_remediation_execution e ?ws s3)"
    using trigger_exec_ends [of s3 ?ws ?ws e] l3 id by simp
  moreover have "pipeline_ends wid (agents_from 6 s) (complete_workflow e wid x s3)" for x
    using l3 by (rule complete_ends)
  ultimately show ?thesis
    using a by (simp add: s3)
qed

lemma call_approval_ends:
  assumes ok: "store_ok s" and l: "workflow_of s (workflow_id ws) = Some w"
  shows "pipeline_ends (workflow_id ws) (agents_from 6 s) (call_approval_request e ws s)"
proof -
  have "pipeline_ends (workflow_id ws) (agents_from 6 s)
          (handle_approval_received e (workflow_id ws) r s1)"
    if "store_ok s1" "active_workflows s1 = active_workflows s"
      "agents_from 6 s1 = agents_from 6 s" for r s1
    using approval_received_ends [of s1 "workflow_id ws" w e r] that l by simp
  then show ?thesis
    using ok by (simp add: call_approval_request_def Let_def split_beta split: sum.split)
qed

lemma trigger_approval_ends:
  assumes ok: "store_ok s" and l: "workflow_of s (workflow_id ws) = Some w"
  shows "pipeline_ends (workflow_id ws) (agents_from 5 s) (trigger_approval_request e ws s)"
proof (cases "approval_agents s = []")
  case True
  then have "\<not> agents_from 5 s" by (simp add: agents_from_def)
  then show ?thesis
    using True fail_ends [OF l] by (simp add: trigger_approval_request_def)
next
  case False
  from trigger_approval_shape [OF l False, of e] obtain s3 where
    s3: "trigger_approval_request e ws s = call_approval_request e ws s3"
    and l3: "workflow_of s3 (workflow_id ws)
               = Some (w\<lparr>status := ''awaiting_approval'', updated_at := clock e (clock_reads s)\<rparr>)"
    and t: "touches e {workflow_id ws} 8 s s3"
    by blast
  have "pipeline_ends (workflow_id ws) (agents_from 6 s3) (call_approval_request e ws s3)"
    using touches_store_ok [OF t ok] l3 by (rule call_approval_ends)
  then show ?thesis
    using touches_agents [OF t, of 6]
    by (simp add: s3) (erule pipeline_ends_mono, simp add: agents_from_def)
qed

lemma remediation_proposed_ends:
  assumes ok: "store_ok s" and l: "workflow_of s wid = Some w"
  shows "pipeline_ends wid (agents_from 4 s) (handle_remediation_proposed e wid r s)"
proof -
  let ?ws = "w\<lparr>remediation_action := Some r, updated_at := clock e (clock_reads s)\<rparr>"
  have id: "workflow_id ?ws = wid"
    using store_ok_id [OF ok l] by simp
  from remediation_proposed_shape [OF l, of 4 e r] obtain s3 where
    s3: "handle_remediation_proposed e wid r s = trigger_approval_request e ?ws s3"
    and l3: "workflow_of s3 wid = Some ?ws" and t: "touches e {wid} 4 s s3"
    by auto
  have "pipeline_ends wid (agents_from 5 s3) (trigger_approval_request e ?ws s3)"
    using trigger_approval_ends [of s3 ?ws ?ws e] touches_store_ok [OF t ok] l3 id by simp
  then show ?thesis
    using touches_agents [OF t, of 5]
    by (simp add: s3) (erule pipeline_ends_mono, simp add: agents_from_def)
qed

lemma call_proposal_ends:
  assumes ok: "store_ok s" and l: "workflow_of s (workflow_id ws) = Some w"
  shows "pipeline_ends (workflow_id ws) (agents_from 4 s) (call_remediation_proposal e ws s)"
proof -
  have "pipeline_ends (workflow_id ws) (agents_from 4 s)
          (handle_remediation_proposed e (workflow_id ws) r s1)"
    if "store_ok s1" "active_workflows s1 = active_workflows s"
      "agents_from 4 s1 = agents_from 4 s" for r s1
    using remediation_proposed_ends [of s1 "workflow_id ws" w e r] that l by simp
  then show ?thesis
    using ok by (simp add: call_remediation_proposal_def Let_def split_beta split: sum.split)
qed

lemma trigger_proposal_ends:
  assumes ok: "store_ok s" and l: "workflow_of s (workflow_id ws) = Some w"
  shows "pipeline_ends (workflow_id ws) (agents_from 3 s) (trigger_remediation_proposal e ws s)"
proof (cases "remediation_agents s = []")
  case True
  then have "\<not> agents_from 3 s" by (simp add: agents_from_def)
  then show ?thesis
    using True fail_ends [OF l] by (simp add: trigger_remediation_proposal_def)
next
  case False
  from trigger_proposal_shape [OF l False, of e] obtain s3 where
    s3: "trigger_remediation_proposal e ws s = call_remediation_proposal e ws s3"
    and l3: "workflow_of s3 (workflow_id ws)
               = Some (w\<lparr>status := ''proposing'', updated_at := clock e (clock_reads s)\<rparr>)"
    and t: "touches e {workflow_id ws} 8 s s3"
    by blast
  have "pipeline_ends (workflow_id ws) (agents_from 4 s3) (call_remediation_proposal e ws s3)"
    using touches_store_ok [OF t ok] l3 by (rule call_proposal_ends)
  then show ?thesis
    using touches_agents [OF t, of 4]
    by (simp add: s3) (erule pipeline_ends_mono, simp add: agents_from_def)
qed

lemma analysis_complete_ends:
  assumes ok: "store_ok s" and l: "workflow_of s wid = Some w"
  shows "pipeline_ends wid (agents_from 2 s) (handle_analysis_complete e wid r s)"
proof -
  let ?ws = "w\<lparr>analysis_result := Some r, updated_at := clock e (clock_reads s)\<rparr>"
  have id: "workflow_id ?ws = wid"
    using store_ok_id [OF ok l] by simp
  from analysis_complete_shape [OF l, of 2 e r] obtain s3 where
    s3: "handle_analysis_complete e wid r s = trigger_remediation_proposal e ?ws s3"
    and l3: "workflow_of s3 wid = Some ?ws" and t: "touches e {wid} 2 s s3"
    by auto
  have "pipeline_ends wid (agents_from 3 s3) (trigger_remediation_proposal e ?ws s3)"
    using trigger_proposal_ends [of s3 ?ws ?ws e] touches_store_ok [OF t ok] l3 id by simp
  then show ?thesis
    using touches_agents [OF t, of 3]
    by (simp add: s3) (erule pipeline_ends_mono, simp add: agents_from_def)
qed

lemma call_rca_ends:
  assumes ok: "store_ok s" and l: "workflow_of s (workflow_id ws) = Some w"
  shows "pipeline_ends (workflow_id ws) (agents_from 2 s) (call_rca_analysis e ws s)"
proof -
  have "pipeline_ends (workflow_id ws) (agents_from 2 s)
          (handle_analysis_complete e (workflow_id ws) r s1)"
    if "store_ok s1" "active_workflows s1 = active_workflows s"
      "agents_from 2 s1 = agents_from 2 s" for r s1
    using analysis_complete_ends [of s1 "workflow_id ws" w e r] that l by simp
  then show ?thesis
    using ok by (simp add: call_rca_analysis_def Let_def split_beta split: sum.split)
qed

lemma trigger_rca_ends:
  assumes ok: "store_ok s" and l: "workflow_of s (workflow_id ws) = Some w"
  shows "pipeline_ends (workflow_id ws) (agents_from 1 s) (trigger_rca_analysis e ws s)"
proof (cases "rca_agents s = []")
  case True
  then have "\<not> agents_from 1 s" by (simp add: agents_from_def)
  then show ?thesis
    using True fail_ends [OF l] by (simp add: trigger_rca_analysis_def)
next
  case False
  from trigger_rca_shape [OF l False, of e] obtain s3 where
    s3: "trigger_rca_analysis e ws s = call_rca_analysis e ws s3"
    and l3: "workflow_of s3 (workflow_id ws)
               = Some (w\<lparr>status := ''analyzing'', updated_at := clock e (clock_reads s)\<rparr>)"
    and t: "touches e {workflow_id ws} 8 s s3"
    by blast
  have "pipeline_ends (workflow_id ws) (agents_from 2 s3) (call_rca_analysis e ws s3)"
    using touches_store_ok [OF t ok] l3 by (rule call_rca_ends)
  then show ?thesis
    using touches_agents [OF t, of 2]
    by (simp add: s3) (erule pipeline_ends_mono, simp add: agents_from_def)
qed

subsection \<open>Substitution events\<close>

lemma touches_events:
  assumes "touches e K L s s'"
  shows "mcp_log s' = mcp_log s @ new_events s s'"
    and "\<forall>ev \<in> set (new_events s s'). event_ok L (ev_tag ev)"
proof -
  from assms obtain new where "mcp_log s' = mcp_log s @ new"
    "\<forall>ev \<in> set new. event_ok L (ev_tag ev)"
    unfolding touches_def by blast
  then show "mcp_log s' = mcp_log s @ new_events s s'"
    and "\<forall>ev \<in> set (new_events s s'). event_ok L (ev_tag ev)"
    by (simp_all add: new_events_def)
qed






lemma a2a_call_Inl_state:
  "fst (a2a_call e sv sk p t c s) = Inl err \<Longrightarrow>
   touches e K 8 s (snd (a2a_call e sv sk p t c s))"
  by (rule touches_a2a_call)





subsection \<open>Stage payloads\<close>

lemma touches_kept:
  assumes "touches e K L s s'" and "workflow_of s k = Some w"
  shows "\<exists>w'. workflow_of s' k = Some w' \<and> same_identity w w' \<and> fields_kept L w w'"
  using touches_lookup [OF assms] by blast


lemma remediation_proposed_keeps:
  assumes ok: "store_ok s" and l: "workflow_of s wid = Some w"
  shows "\<exists>w'. workflow_of (handle_remediation_proposed e wid r s) wid = Some w'
           \<and> remediation_action w' = Some r \<and> analysis_result w' = analysis_result w
           \<and> same_identity w w'"
proof -
  let ?ws = "w\<lparr>remediation_action := Some r, updated_at := clock e (clock_reads s)\<rparr>"
  from remediation_proposed_shape [OF l, of 4 e r] obtain s3 where
    s3: "handle_remediation_proposed e wid r s = trigger_approval_request e ?ws s3"
    and l3: "workflow_of s3 wid = Some ?ws" and t: "touches e {wid} 4 s s3"
    by auto
  have "touches e {wid} 5 s3 (trigger_approval_request e ?ws s3)"
    using closedK_single [OF touches_store_ok [OF t ok]] store_ok_id [OF ok l]
    by (intro touches_trigger_approval) simp_all
  from touches_kept [OF this l3] show ?thesis
    by (auto simp add: s3 fields_kept_def same_identity_def)
qed



subsection \<open>A failed remote call\<close>





lemma touches_no_substitution: "touches e K 8 s s' \<Longrightarrow> no_substitution s s'"
proof -
  assume "touches e K 8 s s'"
  from touches_events(2) [OF this]
  have "\<forall>ev \<in> set (new_events s s'). ev_tag ev \<noteq> rca_fallback \<and> ev_tag ev \<noteq> propose_fallback
          \<and> ev_tag ev \<noteq> approval_fallback \<and> ev_tag ev \<noteq> execute_fallback"
    by (simp add: event_ok_def)
  then show ?thesis
    by (simp add: no_substitution_def filter_empty_conv)
qed

lemma hard_failure:
  assumes "workflow_of s wid = Some w"
  shows "(\<exists>w'. workflow_of (fail_workflow e wid msg s) wid = Some w' \<and> failed_with msg w w')
       \<and> no_substitution s (fail_workflow e wid msg s)"
proof -
  have "touches e UNIV 8 s (fail_workflow e wid msg s)"
    by (rule touches_fail) simp
  then show ?thesis
    using fail_workflow_failed_with [OF assms, of e msg] touches_no_substitution by blast
qed

lemma no_client:
  "service \<notin> set (a2a_clients s) \<Longrightarrow>
   fst (a2a_call e service skill payload timeout cid s)
     = Inl (''No A2A client available for service '' @ [CHR 0x27] @ service @ [CHR 0x27])"
  by (simp add: a2a_call_def)

lemma call_proposal_next:
  assumes ok: "store_ok s"
  shows "\<exists>r s1. call_remediation_proposal e ws s
                 = handle_remediation_proposed e (workflow_id ws) r s1
             \<and> store_ok s1 \<and> active_workflows s1 = active_workflows s"
proof (cases "fst (a2a_call e ''remediation'' (propose_skill (services s)) (propose_payload ws)
                     60 (''wf-'' @ workflow_id ws) s)")
  case (Inl err)
  show ?thesis
    using Inl
    apply (simp add: call_remediation_proposal_def Let_def split_beta)
    apply (intro exI conjI)
      apply (rule refl)
     apply (simp_all add: ok)
    done
next
  case (Inr r)
  show ?thesis
    using Inr
    apply (simp add: call_remediation_proposal_def Let_def split_beta)
    apply (intro exI conjI)
      apply (rule refl)
     apply (simp_all add: ok)
    done
qed

lemma call_proposal_sets:
  assumes ok: "store_ok s" and l: "workflow_of s (workflow_id ws) = Some w"
  shows "\<exists>w' r. workflow_of (call_remediation_proposal e ws s) (workflow_id ws) = Some w'
           \<and> remediation_action w' = Some r \<and> analysis_result w' = analysis_result w"
proof -
  from call_proposal_next [OF ok, of e ws] obtain r s1 where
    u: "call_remediation_proposal e ws s = handle_remediation_proposed e (workflow_id ws) r s1"
    and ok1: "store_ok s1" and a: "active_workflows s1 = active_workflows s"
    by blast
  have "workflow_of s1 (workflow_id ws) = Some w" using l a by simp
  from remediation_proposed_keeps [OF ok1 this, of e r] show ?thesis
    unfolding u by blast
qed

subsection \<open>Unfolding the pipeline on concrete states\<close>



section \<open>Claims\<close>

subsection \<open>C10: status updates for an unknown workflow\<close>



subsection \<open>C4: shutdown\<close>

text \<open>
  Claim C4 says that the shutdown pass fails exactly the still-active workflows with reason
  "system shutdown" and does not modify workflows that are already Completed or Failed.
  \<open>cleanup\<close> visits every key of the store and \<open>fail_workflow\<close> has no test of the stage, so
  a Completed record that is still in the store is set to \<^verbatim>\<open>failed\<close> as well.
\<close>

theorem shutdown_fails_completed_counterexample:
  "map_option status
     (workflow_of (demo_store [(''wf-1'', demo_workflow ''wf-1'' ''completed'')]) ''wf-1'')
     = Some ''completed''
   \<and> map_option status
       (workflow_of
          (cleanup demo_env (demo_store [(''wf-1'', demo_workflow ''wf-1'' ''completed'')]))
          ''wf-1'') = Some ''failed''"
  by (simp add: cleanup_def demo_store_def running_orchestrator_def init_orchestrator_def
      demo_env_def demo_workflow_def fail_workflow_def Let_def datetime_now_def)

text \<open>
  Claim C4, amended. Unless stopping the webhook server raises, the shutdown pass sets every
  record that is in the store, whatever its stage, to \<^verbatim>\<open>failed\<close> with the message
  \<^verbatim>\<open>System shutdown\<close>, and keeps the identity of the record.
\<close>

theorem cleanup_fails_every_record:
  assumes "\<not> (server s \<and> server_stop_raises e)" and "workflow_of s k = Some w"
  shows "\<exists>w'. workflow_of (cleanup e s) k = Some w'
            \<and> failed_with (PStr ''System shutdown'') w w'"
proof -
  have "k \<in> set (map fst (active_workflows s))"
    using assms(2) by (metis map_of_SomeD image_eqI fst_conv list.set_map)
  from fold_fail_member [OF this assms(2), of e "PStr ''System shutdown''"]
  show ?thesis
    using assms(1) by (auto simp add: cleanup_def Let_def)
qed

theorem cleanup_fails_every_record_witness:
  "\<not> (server (demo_store [(''wf-1'', demo_workflow ''wf-1'' ''executing'')])
        \<and> server_stop_raises demo_env)
   \<and> workflow_of (demo_store [(''wf-1'', demo_workflow ''wf-1'' ''executing'')]) ''wf-1''
       = Some (demo_workflow ''wf-1'' ''executing'')
   \<and> (\<exists>w'. workflow_of
               (cleanup demo_env (demo_store [(''wf-1'', demo_workflow ''wf-1'' ''executing'')]))
               ''wf-1'' = Some w'
           \<and> failed_with (PStr ''System shutdown'') (demo_workflow ''wf-1'' ''executing'') w')"
proof -
  have h1: "\<not> (server (demo_store [(''wf-1'', demo_workflow ''wf-1'' ''executing'')])
                \<and> server_stop_raises demo_env)"
    by (simp add: demo_env_def)
  have h2: "workflow_of (demo_store [(''wf-1'', demo_workflow ''wf-1'' ''executing'')]) ''wf-1''
              = Some (demo_workflow ''wf-1'' ''executing'')"
    by (simp add: demo_store_def)
  show ?thesis
    using h1 h2 cleanup_fails_every_record [OF h1 h2] by blast
qed

subsection \<open>C6: the timeout sweep\<close>

text \<open>
  Claim C6 says that a supervisor pass fails every active workflow whose \<open>updated_at\<close> is
  older than the 30-minute timeout with reason "workflow timeout", and leaves every more
  recent workflow unchanged. The sweep does what the claim says; the message that is stored
  and shown to operators is \<^verbatim>\<open>Workflow timeout\<close>, not the string of the claim.
\<close>

theorem timeout_reason_counterexample:
  "map_option status (workflow_of (monitor_workflows_pass demo_env demo_two) ''wf-1'')
     = Some ''failed''
   \<and> map_option error_message (workflow_of (monitor_workflows_pass demo_env demo_two) ''wf-1'')
     = Some (Some (PStr ''Workflow timeout''))
   \<and> map_option error_message (workflow_of (monitor_workflows_pass demo_env demo_two) ''wf-1'')
     \<noteq> Some (Some (PStr ''workflow timeout''))"
  by (simp add: monitor_workflows_pass_def demo_two_def demo_store_at_def demo_store_def
      running_orchestrator_def init_orchestrator_def demo_env_def demo_workflow_def
      fail_workflow_def Let_def datetime_now_def workflow_timeout_def)

text \<open>
  Claim C6, amended. In one pass of the supervisor loop the clock is read once; every
  record of the store (whatever its stage) whose \<open>updated_at\<close> lies more than 30 minutes
  before that reading is set to \<^verbatim>\<open>failed\<close> with the message \<^verbatim>\<open>Workflow timeout\<close>, and every
  other record is left exactly as it was.
\<close>

theorem monitor_pass_sweep:
  assumes "distinct (map fst (active_workflows s))" and "workflow_of s k = Some w"
  shows "(stale (clock e (clock_reads s)) w \<longrightarrow>
            (\<exists>w'. workflow_of (monitor_workflows_pass e s) k = Some w'
                  \<and> failed_with (PStr ''Workflow timeout'') w w'))
       \<and> (\<not> stale (clock e (clock_reads s)) w \<longrightarrow>
            workflow_of (monitor_workflows_pass e s) k = Some w)"
proof -
  have mem: "(k, w) \<in> set (active_workflows s)"
    using assms(2) by (rule map_of_SomeD)
  have a: "workflow_of (tick s) k = Some w"
    using assms(2) by simp
  from monitor_fold_member [OF assms(1) mem a, of "clock e (clock_reads s)" e
      "PStr ''Workflow timeout''"]
  show ?thesis
    by (simp add: monitor_workflows_pass_def Let_def datetime_now_def stale_def)
qed

theorem monitor_pass_sweep_witness:
  "distinct (map fst (active_workflows demo_two))
   \<and> stale (clock demo_env (clock_reads demo_two)) (demo_workflow ''wf-1'' ''analyzing'')
   \<and> (\<exists>w'. workflow_of (monitor_workflows_pass demo_env demo_two) ''wf-1'' = Some w'
           \<and> failed_with (PStr ''Workflow timeout'') (demo_workflow ''wf-1'' ''analyzing'') w')
   \<and> \<not> stale (clock demo_env (clock_reads demo_two))
          ((demo_workflow ''wf-2'' ''proposing'')\<lparr>updated_at := 1999000000\<rparr>)
   \<and> workflow_of (monitor_workflows_pass demo_env demo_two) ''wf-2''
       = Some ((demo_workflow ''wf-2'' ''proposing'')\<lparr>updated_at := 1999000000\<rparr>)"
proof -
  have d: "distinct (map fst (active_workflows demo_two))"
    by (simp add: demo_two_def demo_store_at_def demo_store_def)
  have l1: "workflow_of demo_two ''wf-1'' = Some (demo_workflow ''wf-1'' ''analyzing'')"
    by (simp add: demo_two_def demo_store_at_def demo_store_def)
  have l2: "workflow_of demo_two ''wf-2''
              = Some ((demo_workflow ''wf-2'' ''proposing'')\<lparr>updated_at := 1999000000\<rparr>)"
    by (simp add: demo_two_def demo_store_at_def demo_store_def)
  have s1: "stale (clock demo_env (clock_reads demo_two)) (demo_workflow ''wf-1'' ''analyzing'')"
    by (simp add: stale_def demo_two_def demo_store_at_def demo_env_def demo_workflow_def
        workflow_timeout_def)
  have s2: "\<not> stale (clock demo_env (clock_reads demo_two))
                ((demo_workflow ''wf-2'' ''proposing'')\<lparr>updated_at := 1999000000\<rparr>)"
    by (simp add: stale_def demo_two_def demo_store_at_def demo_env_def demo_workflow_def
        workflow_timeout_def)
  show ?thesis
    using d s1 s2 monitor_pass_sweep [OF d l1, of demo_env]
      monitor_pass_sweep [OF d l2, of demo_env]
    by blast
qed

subsection \<open>C9: the health check is not read-only\<close>

text \<open>
  Claim C9. A call of the health check that serves \<^verbatim>\<open>GET /health\<close> fails every workflow whose
  \<open>updated_at\<close> is older than the 30-minute timeout with the message \<^verbatim>\<open>Workflow timeout\<close>, and
  leaves all other records unchanged. The request is served by the webhook server, so
  \<^verbatim>\<open>self.server\<close> is set; the store is a dict whose records sit under their own ids. The
  list comprehension reads the clock once per record: the record at position \<open>i\<close> of the dict
  is compared with the \<open>i\<close>-th reading taken by the health check.
\<close>

theorem health_check_fails_stale_workflows:
  assumes "server s" and "store_ok s"
    and "i < length (active_workflows s)" and "active_workflows s ! i = (k, w)"
  shows "status_code (fst (handle_health_check e s)) = 200
       \<and> (stale (clock e (clock_reads s + i)) w \<longrightarrow>
            (\<exists>w'. workflow_of (snd (handle_health_check e s)) k = Some w'
                  \<and> failed_with (PStr ''Workflow timeout'') w w'))
       \<and> (\<not> stale (clock e (clock_reads s + i)) w \<longrightarrow>
            workflow_of (snd (handle_health_check e s)) k = Some w)"
  using health_check_sweep [OF assms, of e]
  by (simp add: handle_health_check_def split_beta)

theorem health_check_fails_stale_workflows_witness:
  "server demo_two \<and> store_ok demo_two
   \<and> status_code (fst (handle_health_check demo_env demo_two)) = 200
   \<and> stale (clock demo_env (clock_reads demo_two + 0)) (demo_workflow ''wf-1'' ''analyzing'')
   \<and> (\<exists>w'. workflow_of (snd (handle_health_check demo_env demo_two)) ''wf-1'' = Some w'
           \<and> failed_with (PStr ''Workflow timeout'') (demo_workflow ''wf-1'' ''analyzing'') w')
   \<and> \<not> stale (clock demo_env (clock_reads demo_two + 1))
          ((demo_workflow ''wf-2'' ''proposing'')\<lparr>updated_at := 1999000000\<rparr>)
   \<and> workflow_of (snd (handle_health_check demo_env demo_two)) ''wf-2''
       = Some ((demo_workflow ''wf-2'' ''proposing'')\<lparr>updated_at := 1999000000\<rparr>)"
proof -
  have sv: "server demo_two"
    by (simp add: demo_two_def demo_store_at_def demo_store_def running_orchestrator_def)
  have ok: "store_ok demo_two"
    by (auto simp add: store_ok_def demo_two_def demo_store_at_def demo_store_def
        demo_workflow_def split: if_splits)
  have n0: "0 < length (active_workflows demo_two)"
    and n1: "1 < length (active_workflows demo_two)"
    by (simp_all add: demo_two_def demo_store_at_def demo_store_def)
  have a0: "active_workflows demo_two ! 0 = (''wf-1'', demo_workflow ''wf-1'' ''analyzing'')"
    by (simp add: demo_two_def demo_store_at_def demo_store_def)
  have a1: "active_workflows demo_two ! 1
              = (''wf-2'', (demo_workflow ''wf-2'' ''proposing'')\<lparr>updated_at := 1999000000\<rparr>)"
    by (simp add: demo_two_def demo_store_at_def demo_store_def)
  have s0: "stale (clock demo_env (clock_reads demo_two + 0))
              (demo_workflow ''wf-1'' ''analyzing'')"
    by (simp add: stale_def demo_two_def demo_store_at_def demo_env_def demo_workflow_def
        workflow_timeout_def)
  have s1: "\<not> stale (clock demo_env (clock_reads demo_two + 1))
                ((demo_workflow ''wf-2'' ''proposing'')\<lparr>updated_at := 1999000000\<rparr>)"
    by (simp add: stale_def demo_two_def demo_store_at_def demo_env_def demo_workflow_def
        workflow_timeout_def)
  show ?thesis
    using sv ok s0 s1
      health_check_fails_stale_workflows [OF sv ok n0 a0, of demo_env]
      health_check_fails_stale_workflows [OF sv ok n1 a1, of demo_env]
    by blast
qed

subsection \<open>C7: validation of the failure notification\<close>



subsection \<open>C8: the timestamp invariant\<close>



subsection \<open>C5: substitution of a failed remote call\<close>




end
